theory Spec2Isabelle
  imports Main "HOL-Library.Sublist"
begin

section \<open>Python primitives used by the sources\<close>

text \<open>
  Python \<open>str\<close> values are HOL strings, one \<open>char\<close> per code point; the texts this
  program builds (descriptors, CSS, file names) are ASCII. Python \<open>int\<close> is \<open>int\<close>.
\<close>

definition ascii_lowercase :: string where
  "ascii_lowercase = ''abcdefghijklmnopqrstuvwxyz''"

definition ascii_uppercase :: string where
  "ascii_uppercase = ''ABCDEFGHIJKLMNOPQRSTUVWXYZ''"

text \<open>\<open>str.upper()\<close>, applied by the sources only to the ASCII output of \<open>hex\<close>.\<close>

definition upper_char :: "char \<Rightarrow> char" where
  "upper_char c = (case map_of (zip ascii_lowercase ascii_uppercase) c of None \<Rightarrow> c | Some u \<Rightarrow> u)"

definition upper :: "string \<Rightarrow> string" where
  "upper s = map upper_char s"

definition hex_digit :: "nat \<Rightarrow> char" where
  "hex_digit d = ''0123456789abcdef'' ! d"

fun hex_digits :: "nat \<Rightarrow> string" where
  "hex_digits n = (if n < 16 then [hex_digit n] else hex_digits (n div 16) @ [hex_digit (n mod 16)])"

declare hex_digits.simps [simp del]

text \<open>The builtin \<open>hex\<close>: a sign, the prefix \<open>0x\<close> and lowercase digits.\<close>

definition hex :: "int \<Rightarrow> string" where
  "hex c = (if c < 0 then ''-0x'' @ hex_digits (nat (- c)) else ''0x'' @ hex_digits (nat c))"

text \<open>
  The argument of \<open>ints_to_unicode_range\<close> is annotated \<open>list[int] | set[int]\<close>; the
  function applies \<open>len\<close> and \<open>sorted\<close> to it, which both types support.
\<close>

datatype ints_arg = IntList "int list" | IntSet "int set"

fun len_ints :: "ints_arg \<Rightarrow> nat" where
  "len_ints (IntList xs) = length xs"
| "len_ints (IntSet S) = card S"

fun sorted_ints :: "ints_arg \<Rightarrow> int list" where
  "sorted_ints (IntList xs) = sort xs"
| "sorted_ints (IntSet S) = sorted_list_of_set S"

fun elems :: "ints_arg \<Rightarrow> int set" where
  "elems (IntList xs) = set xs"
| "elems (IntSet S) = S"

text \<open>A Python set is finite and holds no element twice; a list may repeat elements.\<close>

fun dup_free :: "ints_arg \<Rightarrow> bool" where
  "dup_free (IntList xs) = distinct xs"
| "dup_free (IntSet S) = finite S"

section \<open>The range encoder (common/helpers.py)\<close>

text \<open>The local function \<open>enc\<close>: \<open>hex(c)[2:].upper()\<close>.\<close>

definition enc :: "int \<Rightarrow> string" where
  "enc c = upper (drop 2 (hex c))"

text \<open>The local function named \<open>_\<close>: one descriptor for the run from \<open>start\<close> to \<open>end\<close>.\<close>

definition fmt_range :: "int \<Rightarrow> int \<Rightarrow> string" where
  "fmt_range start end =
     (let s = ''U+'' @ enc start in if end > start then s @ ''-'' @ enc end else s)"

text \<open>
  The \<open>for\<close> loop over \<open>ints[1:]\<close> with its variables \<open>chunks\<close>, \<open>start\<close> and \<open>end\<close>,
  followed by the final \<open>chunks.append\<close>.
\<close>

fun range_loop :: "string list \<Rightarrow> int \<Rightarrow> int \<Rightarrow> int list \<Rightarrow> string list" where
  "range_loop chunks start end [] = chunks @ [fmt_range start end]"
| "range_loop chunks start end (i # rest) =
     (if i = end + 1 then range_loop chunks start i rest
      else range_loop (chunks @ [fmt_range start end]) i i rest)"

text \<open>
  \<open>ints[0]\<close> is read only after the emptiness test, so the empty case of the sorted list
  is not reachable; it is given the value of the early return.
\<close>

definition ints_to_unicode_range :: "ints_arg \<Rightarrow> string list" where
  "ints_to_unicode_range ints =
     (if len_ints ints = 0 then []
      else (case sorted_ints ints of
              [] \<Rightarrow> []
            | i0 # rest \<Rightarrow> range_loop [] i0 i0 rest))"

section \<open>Reading descriptors back\<close>

text \<open>
  The decoded form of a descriptor sequence, after the syntax the encoder writes and the
  catalog uses: \<open>U+\<close>, hexadecimal digits, and optionally \<open>-\<close> and the digits of the
  inclusive end. A single-point descriptor denotes the interval from the point to itself.
\<close>

definition hex_val :: "char \<Rightarrow> nat option" where
  "hex_val c = map_of (zip ''0123456789ABCDEFabcdef''
                  [0, 1, 2, 3, 4, 5, 6, 7, 8, 9, 10, 11, 12, 13, 14, 15, 10, 11, 12, 13, 14, 15]) c"

fun parse_hex_from :: "nat \<Rightarrow> string \<Rightarrow> nat option" where
  "parse_hex_from acc [] = Some acc"
| "parse_hex_from acc (c # cs) =
     (case hex_val c of None \<Rightarrow> None | Some d \<Rightarrow> parse_hex_from (16 * acc + d) cs)"

definition parse_hex :: "string \<Rightarrow> nat option" where
  "parse_hex s = (if s = [] then None else parse_hex_from 0 s)"

definition decode_descriptor :: "string \<Rightarrow> (int \<times> int) option" where
  "decode_descriptor d =
     (case d of
        c1 # c2 # body \<Rightarrow>
          if c1 = CHR ''U'' \<and> c2 = CHR ''+'' then
            (let a = takeWhile (\<lambda>c. c \<noteq> CHR ''-'') body;
                 r = dropWhile (\<lambda>c. c \<noteq> CHR ''-'') body
             in case parse_hex a of
                  None \<Rightarrow> None
                | Some x \<Rightarrow>
                    (case r of
                       [] \<Rightarrow> Some (int x, int x)
                     | _ # b \<Rightarrow> map_option (\<lambda>y. (int x, int y)) (parse_hex b)))
          else None
      | _ \<Rightarrow> None)"

fun decode_intervals :: "string list \<Rightarrow> (int \<times> int) list option" where
  "decode_intervals [] = Some []"
| "decode_intervals (d # ds) =
     (case decode_descriptor d of
        None \<Rightarrow> None
      | Some iv \<Rightarrow> map_option (\<lambda>ivs. iv # ivs) (decode_intervals ds))"

definition covered :: "(int \<times> int) list \<Rightarrow> int set" where
  "covered ivs = set (concat (map (\<lambda>(a, b). [a..b]) ivs))"

definition decode_range :: "string list \<Rightarrow> int set option" where
  "decode_range ds = map_option covered (decode_intervals ds)"

text \<open>
  The runs of a sorted list, as intervals: what the loop of the encoder computes before
  rendering. Consecutive intervals of a separated list leave a gap of at least one point.
\<close>

fun runs :: "int \<Rightarrow> int \<Rightarrow> int list \<Rightarrow> (int \<times> int) list" where
  "runs s e [] = [(s, e)]"
| "runs s e (i # rest) = (if i = e + 1 then runs s i rest else (s, e) # runs i i rest)"

fun separated :: "(int \<times> int) list \<Rightarrow> bool" where
  "separated [] = True"
| "separated [(a, b)] = (a \<le> b)"
| "separated ((a, b) # (c, d) # rest) = (a \<le> b \<and> b + 1 < c \<and> separated ((c, d) # rest))"

text \<open>The intervals of a whole sorted list; the empty list has none.\<close>

fun intervals_of :: "int list \<Rightarrow> (int \<times> int) list" where
  "intervals_of [] = []"
| "intervals_of (x # rest) = runs x x rest"

section \<open>Text and paths\<close>

text \<open>
  Exceptions are values. \<open>ExternalError\<close> stands for whatever an external collaborator
  (the file system, the font library) raises; the program catches none of them.
\<close>

datatype error = ValueError | KeyError | ExternalError string

text \<open>\<open>sep.join(xs)\<close> and \<open>s.split(sep)\<close> for a separator of one character.\<close>

fun join :: "string \<Rightarrow> string list \<Rightarrow> string" where
  "join sep [] = []"
| "join sep [x] = x"
| "join sep (x # y # ys) = x @ sep @ join sep (y # ys)"

fun split_on :: "char \<Rightarrow> string \<Rightarrow> string list" where
  "split_on sep [] = [[]]"
| "split_on sep (c # cs) =
     (if c = sep then [] # split_on sep cs
      else (case split_on sep cs of [] \<Rightarrow> [[c]] | h # t \<Rightarrow> (c # h) # t))"

text \<open>\<open>str(i)\<close> of an integer, also the text \<open>json.dumps\<close> gives it.\<close>

definition dec_digit :: "nat \<Rightarrow> char" where
  "dec_digit d = ''0123456789'' ! d"

fun dec_digits :: "nat \<Rightarrow> string" where
  "dec_digits n = (if n < 10 then [dec_digit n] else dec_digits (n div 10) @ [dec_digit (n mod 10)])"

declare dec_digits.simps [simp del]

definition str_int :: "int \<Rightarrow> string" where
  "str_int i = (if i < 0 then ''-'' @ dec_digits (nat (- i)) else dec_digits (nat i))"

text \<open>
  \<open>str.lower()\<close> on code points below 256: the ASCII capitals and the capitals of
  Latin-1 (\<open>0xC0\<close> to \<open>0xDE\<close> without the multiplication sign) move up by 32.
\<close>

definition lower_char :: "char \<Rightarrow> char" where
  "lower_char c =
     (case map_of (zip ascii_uppercase ascii_lowercase) c of
        Some l \<Rightarrow> l
      | None \<Rightarrow>
          (let n = (of_char c :: nat)
           in if 192 \<le> n \<and> n \<le> 222 \<and> n \<noteq> 215 then char_of (n + 32) else c))"

definition lower :: "string \<Rightarrow> string" where
  "lower s = map lower_char s"

text \<open>
  A \<open>Path\<close> is its string form; the paths the program handles are normalised POSIX paths.
  \<open>basename\<close>, \<open>dirname\<close> and \<open>splitext\<close> are those of \<open>os.path\<close>; \<open>suffix\<close> and
  \<open>with_suffix\<close> those of \<open>pathlib\<close>.
\<close>

type_synonym path = string

definition basename :: "path \<Rightarrow> string" where
  "basename p = rev (takeWhile (\<lambda>c. c \<noteq> CHR ''/'') (rev p))"

definition rstrip :: "char \<Rightarrow> string \<Rightarrow> string" where
  "rstrip ch s = rev (dropWhile (\<lambda>c. c = ch) (rev s))"

definition dirname :: "path \<Rightarrow> string" where
  "dirname p =
     (let head = take (length p - length (basename p)) p
      in if head \<noteq> [] \<and> \<not> list_all (\<lambda>c. c = CHR ''/'') head then rstrip CHR ''/'' head else head)"

definition splitext :: "path \<Rightarrow> string \<times> string" where
  "splitext p =
     (let name = basename p;
          dir = take (length p - length name) p;
          ext = rev (takeWhile (\<lambda>c. c \<noteq> CHR ''.'') (rev name));
          stem = take (length name - length ext - 1) name
      in if CHR ''.'' \<in> set name \<and> \<not> list_all (\<lambda>c. c = CHR ''.'') stem
         then (dir @ stem, CHR ''.'' # ext) else (p, []))"

definition suffix_of :: "path \<Rightarrow> string" where
  "suffix_of p =
     (let name = basename p;
          ext = rev (takeWhile (\<lambda>c. c \<noteq> CHR ''.'') (rev name))
      in if CHR ''.'' \<in> set name \<and> length ext < length name - 1 \<and> ext \<noteq> []
         then CHR ''.'' # ext else [])"

text \<open>
  \<open>output_path.with_suffix(".woff2")\<close>; a path without a name, which the root and the
  path \<open>.\<close> are, has no suffix to set.
\<close>

definition with_suffix_woff2 :: "path \<Rightarrow> error + path" where
  "with_suffix_woff2 p =
     (if basename p = [] \<or> p = ''.'' then Inl ValueError
      else Inr (take (length p - length (suffix_of p)) p @ ''.woff2''))"

text \<open>\<open>Path(s)\<close> of a string that \<open>dirname\<close> returned: the empty string is the path \<open>.\<close>.\<close>

definition Path_of :: "string \<Rightarrow> path" where
  "Path_of s = (if s = [] then ''.'' else s)"

text \<open>\<open>output_dir.joinpath(name)\<close> for a name that is a single relative component.\<close>

definition joinpath :: "path \<Rightarrow> string \<Rightarrow> path" where
  "joinpath d name =
     (if d = ''.'' then name else if d \<noteq> [] \<and> last d = CHR ''/'' then d @ name else d @ ''/'' @ name)"

section \<open>CSS values (common/helpers.py)\<close>

text \<open>
  A value that is a \<open>str\<close> or an instance of the class \<open>CssStr\<close>, given by its field
  \<open>val\<close>.
\<close>

datatype str_or_CssStr = Str string | CssStr string

text \<open>
  The values \<open>css_stringify\<close> is called with. \<open>PyOther\<close> stands for a value of any type
  the function does not handle. A \<open>dict\<close> is the list of its items in insertion order,
  its keys being strings. Values of type \<open>float\<close>, whose text is that of
  \<open>float.__repr__\<close>, are left out; the program builds none.
\<close>

datatype css_val =
    PyBool bool
  | PyInt int
  | Text str_or_CssStr
  | PyList "css_val list"
  | PyTuple "css_val list"
  | PyDict "(string \<times> css_val) list"
  | PyOther

text \<open>
  \<open>json.dumps\<close> of a string: the text between double quotes, with the double quote,
  the backslash and the control characters escaped, and every other code point outside
  the printable ASCII range written as a backslash, \<open>u\<close> and four hexadecimal digits.
\<close>

definition dquote :: char where
  "dquote = CHR 0x22"

definition backslash :: char where
  "backslash = CHR 0x5C"

definition hex4 :: "nat \<Rightarrow> string" where
  "hex4 n = replicate (4 - length (hex_digits n)) CHR ''0'' @ hex_digits n"

definition json_escape_char :: "char \<Rightarrow> string" where
  "json_escape_char c =
     (if c = dquote then [backslash, dquote]
      else if c = backslash then [backslash, backslash]
      else if c = CHR 0x08 then [backslash, CHR ''b'']
      else if c = CHR 0x0C then [backslash, CHR ''f'']
      else if c = CHR 0x0A then [backslash, CHR ''n'']
      else if c = CHR 0x0D then [backslash, CHR ''r'']
      else if c = CHR 0x09 then [backslash, CHR ''t'']
      else if (of_char c :: nat) < 32 \<or> 126 < (of_char c :: nat)
        then [backslash, CHR ''u''] @ hex4 (of_char c)
      else [c])"

definition json_dumps_str :: "string \<Rightarrow> string" where
  "json_dumps_str s = [dquote] @ concat (map json_escape_char s) @ [dquote]"

text \<open>The first error of a sequence of results, as a loop stops at the first raise.\<close>

fun sequence :: "(error + 'a) list \<Rightarrow> error + 'a list" where
  "sequence [] = Inr []"
| "sequence (Inl e # rs) = Inl e"
| "sequence (Inr x # rs) = (case sequence rs of Inl e \<Rightarrow> Inl e | Inr xs \<Rightarrow> Inr (x # xs))"

fun css_stringify :: "css_val \<Rightarrow> error + string"
  and css_stringify_list :: "css_val list \<Rightarrow> error + string list"
  and css_stringify_items :: "(string \<times> css_val) list \<Rightarrow> error + string list" where
  "css_stringify (PyBool b) = Inr (if b then ''true'' else ''false'')"
| "css_stringify (PyInt i) = Inr (str_int i)"
| "css_stringify (Text (Str s)) = Inr (json_dumps_str s)"
| "css_stringify (Text (CssStr s)) = Inr s"
| "css_stringify (PyList vs) = map_sum id (join '','') (css_stringify_list vs)"
| "css_stringify (PyTuple vs) = map_sum id (join '' '') (css_stringify_list vs)"
| "css_stringify (PyDict kvs) = map_sum id (join '' '') (css_stringify_items kvs)"
| "css_stringify PyOther = Inl ValueError"
| "css_stringify_list [] = Inr []"
| "css_stringify_list (v # vs) =
     (case css_stringify v of
        Inl e \<Rightarrow> Inl e
      | Inr s \<Rightarrow> map_sum id (\<lambda>ss. s # ss) (css_stringify_list vs))"
| "css_stringify_items [] = Inr []"
| "css_stringify_items ((k, v) # kvs) =
     (case css_stringify v of
        Inl e \<Rightarrow> Inl e
      | Inr s \<Rightarrow> map_sum id (\<lambda>ss. (k @ ''('' @ s @ '')'') # ss) (css_stringify_items kvs))"

section \<open>Console, catalog and font records (common/structs.py)\<close>

definition FONT_WEIGHT_NAME_TO_VALUE :: "(string \<times> int) list" where
  "FONT_WEIGHT_NAME_TO_VALUE =
     [(''thin'', 100),
      (''extralight'', 200),
      (''light'', 300),
      (''normal'', 400),
      (''regular'', 400),
      (''italic'', 400),
      (''medium'', 500),
      (''semibold'', 600),
      (''bold'', 700),
      (''extrabold'', 800),
      (''black'', 900),
      (''heavy'', 900)]"

text \<open>
  What the program does to the world besides returning values: the text it prints, the
  indentation level of the class \<open>Console\<close>, and the calls it makes to the file system
  and the font library, in order.
\<close>

datatype call = OpenFont path | MakeDirs path | SubsetMain "string list"

record world =
  indent_level :: nat
  stdout :: "string list"
  calls :: "call list"

text \<open>
  \<open>Console.log\<close> with the default \<open>sep\<close>, \<open>end\<close> and \<open>in_group\<close>, which every call of
  the functions below has: one \<open>print\<close> of the indentation and the arguments, separated
  by spaces. The arguments are given as their \<open>str\<close> texts.
\<close>

definition Console_log :: "string list \<Rightarrow> world \<Rightarrow> world" where
  "Console_log args w =
     w\<lparr>stdout := stdout w @
         [replicate (indent_level w) CHR '' '' @ concat (map (\<lambda>a. '' '' @ a) args) @ [CHR 0x0A]]\<rparr>"

definition add_indent_level :: "int \<Rightarrow> world \<Rightarrow> world" where
  "add_indent_level delta w = w\<lparr>indent_level := nat (max 0 (int (indent_level w) + delta))\<rparr>"

definition Console_group :: "string list \<Rightarrow> world \<Rightarrow> world" where
  "Console_group args w = add_indent_level 2 (Console_log args w)"

definition Console_group_end :: "world \<Rightarrow> world" where
  "Console_group_end w = add_indent_level (- 2) w"

datatype Subset =
    Arabic | Bengali | Cyrillic | CyrillicExt | Devanagari | Georgian | Greek | GreekExt
  | Gujarati | Gurmukhi | Hebrew | Kannada | Khmer | Latin | LatinExt | Malayalam
  | Myanmar | Oriya | Sinhala | Tamil | Telugu | Thai | Tibetan | Vietnamese

text \<open>\<open>list(Subset)\<close>: the members in the order of their definition.\<close>

definition all_subsets :: "Subset list" where
  "all_subsets =
     [Arabic, Bengali, Cyrillic, CyrillicExt, Devanagari, Georgian, Greek, GreekExt,
      Gujarati, Gurmukhi, Hebrew, Kannada, Khmer, Latin, LatinExt, Malayalam,
      Myanmar, Oriya, Sinhala, Tamil, Telugu, Thai, Tibetan, Vietnamese]"

text \<open>The value of a member, which is also its \<open>str\<close> text, and its name.\<close>

fun subset_value :: "Subset \<Rightarrow> string" where
  "subset_value Arabic = ''arabic''"
| "subset_value Bengali = ''bengali''"
| "subset_value Cyrillic = ''cyrillic''"
| "subset_value CyrillicExt = ''cyrillic-ext''"
| "subset_value Devanagari = ''devanagari''"
| "subset_value Georgian = ''georgian''"
| "subset_value Greek = ''greek''"
| "subset_value GreekExt = ''greek-ext''"
| "subset_value Gujarati = ''gujarati''"
| "subset_value Gurmukhi = ''gurmukhi''"
| "subset_value Hebrew = ''hebrew''"
| "subset_value Kannada = ''kannada''"
| "subset_value Khmer = ''khmer''"
| "subset_value Latin = ''latin''"
| "subset_value LatinExt = ''latin-ext''"
| "subset_value Malayalam = ''malayalam''"
| "subset_value Myanmar = ''myanmar''"
| "subset_value Oriya = ''oriya''"
| "subset_value Sinhala = ''sinhala''"
| "subset_value Tamil = ''tamil''"
| "subset_value Telugu = ''telugu''"
| "subset_value Thai = ''thai''"
| "subset_value Tibetan = ''tibetan''"
| "subset_value Vietnamese = ''vietnamese''"

fun subset_name :: "Subset \<Rightarrow> string" where
  "subset_name Arabic = ''Arabic''"
| "subset_name Bengali = ''Bengali''"
| "subset_name Cyrillic = ''Cyrillic''"
| "subset_name CyrillicExt = ''CyrillicExt''"
| "subset_name Devanagari = ''Devanagari''"
| "subset_name Georgian = ''Georgian''"
| "subset_name Greek = ''Greek''"
| "subset_name GreekExt = ''GreekExt''"
| "subset_name Gujarati = ''Gujarati''"
| "subset_name Gurmukhi = ''Gurmukhi''"
| "subset_name Hebrew = ''Hebrew''"
| "subset_name Kannada = ''Kannada''"
| "subset_name Khmer = ''Khmer''"
| "subset_name Latin = ''Latin''"
| "subset_name LatinExt = ''LatinExt''"
| "subset_name Malayalam = ''Malayalam''"
| "subset_name Myanmar = ''Myanmar''"
| "subset_name Oriya = ''Oriya''"
| "subset_name Sinhala = ''Sinhala''"
| "subset_name Tamil = ''Tamil''"
| "subset_name Telugu = ''Telugu''"
| "subset_name Thai = ''Thai''"
| "subset_name Tibetan = ''Tibetan''"
| "subset_name Vietnamese = ''Vietnamese''"

fun as_unicode_range :: "Subset \<Rightarrow> string list" where
  "as_unicode_range Arabic =
     [''U+0600-06FF'', ''U+200C-200E'', ''U+2010-2011'', ''U+204F'', ''U+2E41'',
      ''U+FB50-FDFF'', ''U+FE80-FEFC'']"
| "as_unicode_range Bengali =
     [''U+0964-0965'', ''U+0981-09FB'', ''U+200C-200D'', ''U+20B9'', ''U+25CC'']"
| "as_unicode_range Cyrillic =
     [''U+0400-045F'', ''U+0490-0491'', ''U+04B0-04B1'', ''U+2116'']"
| "as_unicode_range CyrillicExt =
     [''U+0460-052F'', ''U+1C80-1C88'', ''U+20B4'', ''U+2DE0-2DFF'', ''U+A640-A69F'',
      ''U+FE2E-FE2F'']"
| "as_unicode_range Devanagari =
     [''U+0900-097F'', ''U+1CD0-1CF6'', ''U+1CF8-1CF9'', ''U+200C-200D'', ''U+20A8'',
      ''U+20B9'', ''U+25CC'', ''U+A830-A839'', ''U+A8E0-A8FB'']"
| "as_unicode_range Georgian = [''U+10A0-10FF'']"
| "as_unicode_range Greek = [''U+0370-03FF'']"
| "as_unicode_range GreekExt = [''U+1F00-1FFF'']"
| "as_unicode_range Gujarati =
     [''U+0964-0965'', ''U+0A80-0AFF'', ''U+200C-200D'', ''U+20B9'', ''U+25CC'',
      ''U+A830-A839'']"
| "as_unicode_range Gurmukhi =
     [''U+0964-0965'', ''U+0A01-0A75'', ''U+200C-200D'', ''U+20B9'', ''U+25CC'',
      ''U+262C'', ''U+A830-A839'']"
| "as_unicode_range Hebrew = [''U+0590-05FF'', ''U+20AA'', ''U+25CC'', ''U+FB1D-FB4F'']"
| "as_unicode_range Kannada =
     [''U+0964-0965'', ''U+0C82-0CF2'', ''U+200C-200D'', ''U+20B9'', ''U+25CC'']"
| "as_unicode_range Khmer = [''U+1780-17FF'', ''U+200C'', ''U+25CC'']"
| "as_unicode_range Latin =
     [''U+0000-00FF'', ''U+0131'', ''U+0152-0153'', ''U+02BB-02BC'', ''U+02C6'',
      ''U+02DA'', ''U+02DC'', ''U+2000-206F'', ''U+2074'', ''U+20AC'', ''U+2122'',
      ''U+2191'', ''U+2193'', ''U+2212'', ''U+2215'', ''U+FEFF'', ''U+FFFD'']"
| "as_unicode_range LatinExt =
     [''U+0100-024F'', ''U+0259'', ''U+1E00-1EFF'', ''U+2020'', ''U+20A0-20AB'',
      ''U+20AD-20CF'', ''U+2113'', ''U+2C60-2C7F'', ''U+A720-A7FF'']"
| "as_unicode_range Malayalam =
     [''U+0307'', ''U+0323'', ''U+0964-0965'', ''U+0D02-0D7F'', ''U+200C-200D'',
      ''U+20B9'', ''U+25CC'']"
| "as_unicode_range Myanmar = [''U+1000-109F'', ''U+200C-200D'', ''U+25CC'']"
| "as_unicode_range Oriya =
     [''U+0964-0965'', ''U+0B01-0B77'', ''U+200C-200D'', ''U+20B9'', ''U+25CC'']"
| "as_unicode_range Sinhala = [''U+0964-0965'', ''U+0D82-0DF4'', ''U+200C-200D'', ''U+25CC'']"
| "as_unicode_range Tamil =
     [''U+0964-0965'', ''U+0B82-0BFA'', ''U+200C-200D'', ''U+20B9'', ''U+25CC'']"
| "as_unicode_range Telugu =
     [''U+0951-0952'', ''U+0964-0965'', ''U+0C00-0C7F'', ''U+1CDA'', ''U+200C-200D'',
      ''U+25CC'']"
| "as_unicode_range Thai = [''U+0E01-0E5B'', ''U+200C-200D'', ''U+25CC'']"
| "as_unicode_range Tibetan = [''U+0F00-0FFF'', ''U+200C-200D'', ''U+25CC'']"
| "as_unicode_range Vietnamese =
     [''U+0102-0103'', ''U+0110-0111'', ''U+1EA0-1EF9'', ''U+20AB'']"

record FontFile =
  file_path :: path
  format :: string
  relative_to_path :: "path option"
  unicodes_available :: "int list option"

record FontSubset =
  subset_file :: FontFile
  unicode_range :: "string list"

text \<open>
  The field \<open>file\<close> of a subset and of a variant is \<open>subset_file\<close> and
  \<open>variant_file\<close> here. \<open>stretch\<close> is a \<open>CssStr\<close>, given by its text, or \<open>None\<close>.
\<close>

record FontVariant =
  variant_file :: FontFile
  weight :: int
  style :: str_or_CssStr
  stretch :: "string option"
  subsets :: "FontSubset list"

text \<open>
  The world outside the program: the file system (\<open>os.path.isfile\<close>, \<open>os.path.isdir\<close>,
  \<open>os.path.relpath\<close>, \<open>os.makedirs\<close>) and the font library. \<open>read_cmap\<close> is the opening
  of a font with \<open>fontTools.ttLib.TTFont\<close> and the reading of the keys of every subtable
  of its \<open>cmap\<close> table; \<open>subset_main\<close> is \<open>fontTools.subset.main\<close>, which writes the
  reduced font or raises. \<open>repr_variant\<close> is the text \<open>str\<close> gives for a variant, which
  the dataclass generates.
\<close>

record env =
  isfile :: "path \<Rightarrow> bool"
  isdir :: "path \<Rightarrow> bool"
  relpath :: "path \<Rightarrow> path \<Rightarrow> string"
  makedirs :: "path \<Rightarrow> error option"
  read_cmap :: "path \<Rightarrow> error + int list list"
  subset_main :: "string list \<Rightarrow> error option"
  repr_variant :: "FontVariant \<Rightarrow> string"

text \<open>\<open>FontFile.from_path\<close>: the format defaults to the suffix without its dots.\<close>

definition strip_dots :: "string \<Rightarrow> string" where
  "strip_dots s = rstrip CHR ''.'' (dropWhile (\<lambda>c. c = CHR ''.'') s)"

definition from_path :: "path \<Rightarrow> string option \<Rightarrow> FontFile" where
  "from_path p fmt =
     \<lparr>file_path = p,
      format = (case fmt of
                  None \<Rightarrow> strip_dots (suffix_of p)
                | Some f \<Rightarrow> if f = [] then strip_dots (suffix_of p) else f),
      relative_to_path = None,
      unicodes_available = None\<rparr>"

definition with_relative_to_path :: "env \<Rightarrow> FontFile \<Rightarrow> path option \<Rightarrow> FontFile" where
  "with_relative_to_path ev f rel =
     (case rel of
        None \<Rightarrow> f
      | Some r \<Rightarrow> f\<lparr>relative_to_path := Some (Path_of (if isdir ev r then r else dirname r))\<rparr>)"

definition file_path_relative :: "env \<Rightarrow> FontFile \<Rightarrow> string" where
  "file_path_relative ev f =
     (case relative_to_path f of
        Some r \<Rightarrow> relpath ev (file_path f) r
      | None \<Rightarrow> file_path f)"

definition file_name :: "FontFile \<Rightarrow> string" where
  "file_name f = basename (file_path f)"

definition file_name_without_ext :: "FontFile \<Rightarrow> string" where
  "file_name_without_ext f = fst (splitext (file_name f))"

definition as_dict :: "env \<Rightarrow> FontFile \<Rightarrow> css_val" where
  "as_dict ev f =
     PyDict [(''url'', Text (Str (file_path_relative ev f))), (''format'', Text (Str (format f)))]"

text \<open>
  \<open>FontFile.available_unicode_characters\<close>: the cached list if there is one; otherwise
  the font is opened, the keys of all subtables are chained, and the sorted list of
  their set is stored in the cache and returned. The result comes with the file as the
  call leaves it.
\<close>

definition available_unicode_characters ::
    "env \<Rightarrow> FontFile \<Rightarrow> world \<Rightarrow> (error + int list) \<times> FontFile \<times> world" where
  "available_unicode_characters ev f w =
     (case unicodes_available f of
        Some cached \<Rightarrow> (Inr cached, f, w)
      | None \<Rightarrow>
          (let w1 = w\<lparr>calls := calls w @ [OpenFont (file_path f)]\<rparr>
           in case read_cmap ev (file_path f) of
                Inl e \<Rightarrow> (Inl e, f, w1)
              | Inr tables \<Rightarrow>
                  (let chars = concat tables;
                       result = sorted_list_of_set (set chars)
                   in (Inr result, f\<lparr>unicodes_available := Some result\<rparr>, w1))))"

text \<open>
  \<open>FontVariant._to_font_face\<close>: the properties in the order of the dictionary, each as
  \<open>key:value\<close>, joined by semicolons between the braces of the rule.
\<close>

definition to_font_face :: "(string \<times> css_val) list \<Rightarrow> error + string" where
  "to_font_face props =
     map_sum id (\<lambda>parts. ''@font-face{'' @ join '';'' parts @ ''}'')
       (sequence (map (\<lambda>(k, v). map_sum id (\<lambda>s. k @ '':'' @ s) (css_stringify v)) props))"

text \<open>
  The dictionary \<open>base_props\<close> of \<open>to_css_font_faces\<close>, with \<open>font-stretch\<close> added at
  its end when the variant has a stretch (an instance of \<open>CssStr\<close> is always true).
\<close>

definition base_props :: "FontVariant \<Rightarrow> str_or_CssStr \<Rightarrow> (string \<times> css_val) list" where
  "base_props self font_family =
     [(''font-family'', Text font_family),
      (''font-weight'', PyInt (weight self)),
      (''font-style'', Text (style self))]
     @ (case stretch self of None \<Rightarrow> [] | Some s \<Rightarrow> [(''font-stretch'', Text (CssStr s))])"

definition subset_props ::
    "env \<Rightarrow> (string \<times> css_val) list \<Rightarrow> path option \<Rightarrow> FontSubset \<Rightarrow> (string \<times> css_val) list" where
  "subset_props ev base rel sset =
     base @
     [(''unicode-range'', PyList (map (\<lambda>d. Text (CssStr d)) (unicode_range sset))),
      (''src'', PyList [as_dict ev (with_relative_to_path ev (subset_file sset) rel)])]"

text \<open>
  \<open>FontVariant.to_css_font_faces\<close>, a generator, as the list of all the blocks it
  yields when run to its end: one per subset, then the block of the whole font when
  \<open>with_main_font\<close> is set, which reads the coverage of the font.
\<close>

definition to_css_font_faces ::
    "env \<Rightarrow> FontVariant \<Rightarrow> str_or_CssStr \<Rightarrow> path option \<Rightarrow> bool \<Rightarrow> world
      \<Rightarrow> (error + string list) \<times> FontVariant \<times> world" where
  "to_css_font_faces ev self font_family rel with_main_font w =
     (let base = base_props self font_family
      in case sequence (map (\<lambda>sset. to_font_face (subset_props ev base rel sset)) (subsets self)) of
           Inl e \<Rightarrow> (Inl e, self, w)
         | Inr blocks \<Rightarrow>
             if with_main_font then
               (case available_unicode_characters ev (variant_file self) w of
                  (Inl e, f', w1) \<Rightarrow> (Inl e, self\<lparr>variant_file := f'\<rparr>, w1)
                | (Inr chars, f', w1) \<Rightarrow>
                    (case to_font_face
                            (base @
                             [(''unicode-range'',
                               PyList (map (\<lambda>d. Text (CssStr d))
                                         (ints_to_unicode_range (IntList chars)))),
                              (''src'', PyList [as_dict ev (with_relative_to_path ev f' rel)])]) of
                       Inl e \<Rightarrow> (Inl e, self\<lparr>variant_file := f'\<rparr>, w1)
                     | Inr b \<Rightarrow> (Inr (blocks @ [b]), self\<lparr>variant_file := f'\<rparr>, w1)))
             else (Inr blocks, self, w))"

text \<open>
  \<open>FontVariant.from_file_path\<close>. \<open>style_params\<close> is the variable \<open>params\<close>: the last
  part of the file name without its extension, in lower case. The weight is that of the
  first key of the table the parameters start with; when there is none, the warning is
  printed and the weight is that of \<open>normal\<close>.
\<close>

definition style_params :: "path \<Rightarrow> string" where
  "style_params font_file_path =
     lower (last (split_on CHR ''-'' (fst (splitext (basename font_file_path)))))"

definition new_variant :: "path \<Rightarrow> string \<Rightarrow> int \<Rightarrow> FontVariant" where
  "new_variant font_file_path params w8 =
     \<lparr>variant_file = from_path font_file_path None,
      weight = w8,
      style = CssStr (if sublist ''italic'' params then ''italic'' else ''normal''),
      stretch = None,
      subsets = []\<rparr>"

definition from_file_path :: "path \<Rightarrow> world \<Rightarrow> (error + FontVariant) \<times> world" where
  "from_file_path font_file_path w =
     (let params = style_params font_file_path
      in case find (\<lambda>(k, v). prefix k params) FONT_WEIGHT_NAME_TO_VALUE of
           Some (k, v) \<Rightarrow> (Inr (new_variant font_file_path params v), w)
         | None \<Rightarrow>
             (let w1 = Console_log [replicate 80 CHR ''=''] w;
                  w2 = Console_log
                         [''WARNING! Unknown weight `'' @ params @ ''` for `'' @ font_file_path @ ''`''] w1;
                  w3 = Console_log [replicate 80 CHR ''=''] w2
              in case map_of FONT_WEIGHT_NAME_TO_VALUE ''normal'' of
                   None \<Rightarrow> (Inl KeyError, w3)
                 | Some v \<Rightarrow> (Inr (new_variant font_file_path params v), w3)))"

section \<open>The subsetter (build.py)\<close>

definition MIN_CHARS_FOR_SUBSET :: nat where
  "MIN_CHARS_FOR_SUBSET = 8"

text \<open>
  Modelled from the spec: \<open>fontTools.subset.parse_unicodes\<close> belongs to the font
  library and is not among the sources. After section 4.4 of the specification, which
  has the ranges of the subset expanded into the requested code points, it reads a text
  of descriptors separated by commas and returns the code points of all their
  intervals, and raises \<open>ValueError\<close> on a text it cannot read.
\<close>

definition parse_unicodes :: "string \<Rightarrow> error + int list" where
  "parse_unicodes s =
     (case decode_intervals (split_on CHR '','' s) of
        None \<Rightarrow> Inl ValueError
      | Some ivs \<Rightarrow> Inr (concat (map (\<lambda>(a, b). [a..b]) ivs)))"

text \<open>The arguments \<open>font_file_to_woff2\<close> hands to \<open>fontTools.subset.main\<close>.\<close>

definition subset_args :: "path \<Rightarrow> string \<Rightarrow> path \<Rightarrow> string list" where
  "subset_args fpath unicodes output_file_path =
     [fpath,
      ''--no-hinting'',
      ''--desubroutinize'',
      ''--no-ignore-missing-unicodes'',
      ''--no-ignore-missing-glyphs'',
      ''--flavor=woff2'',
      ''--unicodes='' @ unicodes,
      ''--output-file='' @ output_file_path]"

text \<open>\<open>font_file_to_woff2\<close> with \<open>additional_args\<close> at its default, the empty list.\<close>

definition font_file_to_woff2 ::
    "env \<Rightarrow> path \<Rightarrow> path \<Rightarrow> string \<Rightarrow> world \<Rightarrow> (error + path) \<times> world" where
  "font_file_to_woff2 ev fpath output_path unicodes w =
     (let w1 = Console_log [''Converting'', fpath, ''to woff2'', ''('' @ unicodes @ '')'', ''[]''] w;
          output_dir = dirname output_path;
          w2 = w1\<lparr>calls := calls w1 @ [MakeDirs output_dir]\<rparr>
      in case makedirs ev output_dir of
           Some e \<Rightarrow> (Inl e, w2)
         | None \<Rightarrow>
             (case with_suffix_woff2 output_path of
                Inl e \<Rightarrow> (Inl e, w2)
              | Inr output_file_path \<Rightarrow>
                  (let args = subset_args fpath unicodes output_file_path;
                       w3 = w2\<lparr>calls := calls w2 @ [SubsetMain args]\<rparr>
                   in case subset_main ev args of
                        Some e \<Rightarrow> (Inl e, w3)
                      | None \<Rightarrow> (Inr output_file_path, w3))))"

text \<open>
  The requested code points of a subset: the first two statements of
  \<open>font_file_to_subset\<close>.
\<close>

definition requested_chars :: "Subset \<Rightarrow> error + int set" where
  "requested_chars sset =
     (let subset_unicode = join '','' (as_unicode_range sset)
      in map_sum id set (parse_unicodes subset_unicode))"

text \<open>
  \<open>font_file_to_subset\<close>, its parameter \<open>subset\<close> being \<open>sset\<close> here. The result comes
  with the variant as the call leaves it (the coverage of its file is cached by then).
\<close>

definition font_file_to_subset ::
    "env \<Rightarrow> FontVariant \<Rightarrow> Subset \<Rightarrow> path \<Rightarrow> world
      \<Rightarrow> (error + FontSubset option) \<times> FontVariant \<times> world" where
  "font_file_to_subset ev font_var sset output_path w =
     (case requested_chars sset of
        Inl e \<Rightarrow> (Inl e, font_var, w)
      | Inr requested \<Rightarrow>
          (case available_unicode_characters ev (variant_file font_var) w of
             (Inl e, f', w1) \<Rightarrow> (Inl e, font_var\<lparr>variant_file := f'\<rparr>, w1)
           | (Inr font_chars, f', w1) \<Rightarrow>
               (let font_var' = font_var\<lparr>variant_file := f'\<rparr>;
                    available_chars = requested \<inter> set font_chars;
                    n_available_chars = card available_chars
                in if n_available_chars < MIN_CHARS_FOR_SUBSET then
                     (let w2 = Console_log [replicate 80 CHR ''=''] w1;
                          w3 = Console_log
                                 [''Subset'', subset_name sset,
                                  ''too small ('' @ str_int (int n_available_chars) @ '' chars < ''
                                    @ str_int (int MIN_CHARS_FOR_SUBSET) @ '' min chars). Skipping.''] w2;
                          w4 = Console_log [replicate 80 CHR ''=''] w3
                      in (Inr None, font_var', w4))
                   else
                     (let w2 = Console_log
                                 [''Subsetting'', file_name f', ''to'', subset_name sset,
                                  ''('' @ str_int (int n_available_chars) @ '' chars)''] w1;
                          available_unicode_range = ints_to_unicode_range (IntSet available_chars)
                      in case font_file_to_woff2 ev (file_path f') output_path
                                (join '','' available_unicode_range) w2 of
                           (Inl e, w3) \<Rightarrow> (Inl e, font_var', w3)
                         | (Inr out, w3) \<Rightarrow>
                             (Inr (Some \<lparr>subset_file = from_path out (Some ''woff2''),
                                         unicode_range = available_unicode_range\<rparr>),
                              font_var', w3)))))"

text \<open>
  \<open>Pool.starmap\<close>: the model runs the jobs one after the other, in the order of the
  list, and stops at the first that raises; the results come in the order of the jobs.
  Every job works on its own copy of its arguments, so what a job does to the variant
  is not seen by the caller.
\<close>

fun starmap ::
    "('a \<Rightarrow> world \<Rightarrow> (error + 'b) \<times> world) \<Rightarrow> 'a list \<Rightarrow> world \<Rightarrow> (error + 'b list) \<times> world" where
  "starmap f [] w = (Inr [], w)"
| "starmap f (a # as) w =
     (case f a w of
        (Inl e, w1) \<Rightarrow> (Inl e, w1)
      | (Inr r, w1) \<Rightarrow>
          (case starmap f as w1 of
             (Inl e, w2) \<Rightarrow> (Inl e, w2)
           | (Inr rs, w2) \<Rightarrow> (Inr (r # rs), w2)))"

definition subset_job ::
    "env \<Rightarrow> FontVariant \<times> Subset \<times> path \<Rightarrow> world \<Rightarrow> (error + FontSubset option) \<times> world" where
  "subset_job ev job w =
     (case job of
        (font_var, sset, output_path) \<Rightarrow>
          (case font_file_to_subset ev font_var sset output_path w of
             (r, font_var', w1) \<Rightarrow> (r, w1)))"

text \<open>
  The body of \<open>font_file_to_subsets\<close>: the value returned (\<open>None\<close> by the bare
  \<open>return\<close>, else the variant), the variant as the call leaves it, and the world.
\<close>

definition font_file_to_subsets_body ::
    "env \<Rightarrow> FontVariant \<Rightarrow> path \<Rightarrow> world \<Rightarrow> (error + FontVariant option) \<times> FontVariant \<times> world" where
  "font_file_to_subsets_body ev font_var output_dir w =
     (let font_path = file_path (variant_file font_var)
      in if \<not> isfile ev font_path then (Inr None, font_var, w)
         else
           (case starmap (subset_job ev)
                   (map (\<lambda>sset.
                           (font_var, sset,
                            joinpath output_dir
                              (file_name_without_ext (variant_file font_var) @ ''.''
                                 @ subset_value sset @ ''.woff2'')))
                      all_subsets) w of
              (Inl e, w1) \<Rightarrow> (Inl e, font_var, w1)
            | (Inr results, w1) \<Rightarrow>
                (let font_var' = font_var\<lparr>subsets := List.map_filter (\<lambda>s. s) results\<rparr>
                 in (Inr (Some font_var'), font_var', w1))))"

text \<open>
  The function as decorated by \<open>Console.grouped("Subsetting {0}")\<close>: the group is
  opened, the body runs, and the group is closed when the body returns.
\<close>

definition font_file_to_subsets ::
    "env \<Rightarrow> FontVariant \<Rightarrow> path \<Rightarrow> world \<Rightarrow> (error + FontVariant option) \<times> FontVariant \<times> world" where
  "font_file_to_subsets ev font_var output_dir w =
     (let w1 = Console_group [''Subsetting '' @ repr_variant ev font_var] w
      in case font_file_to_subsets_body ev font_var output_dir w1 of
           (Inl e, font_var', w2) \<Rightarrow> (Inl e, font_var', w2)
         | (Inr ret, font_var', w2) \<Rightarrow> (Inr ret, font_var', Console_group_end w2))"


text \<open>
  The requested code points of a subset as a set; every subset of the catalog can be
  read, so the other case does not arise.
\<close>

definition requested_set :: "Subset \<Rightarrow> int set" where
  "requested_set sset = (case requested_chars sset of Inl e \<Rightarrow> {} | Inr requested \<Rightarrow> requested)"

section \<open>Properties of the encoder\<close>

lemma range_loop_runs:
  "range_loop chunks s e xs = chunks @ map (\<lambda>(a, b). fmt_range a b) (runs s e xs)"
  by (induction xs arbitrary: chunks s e) simp_all

lemma hex_val_upper_digit: "d < 16 \<Longrightarrow> hex_val (upper_char (hex_digit d)) = Some d"
proof -
  assume "d < 16"
  then have "d = 0 \<or> d = 1 \<or> d = 2 \<or> d = 3 \<or> d = 4 \<or> d = 5 \<or> d = 6 \<or> d = 7 \<or> d = 8
      \<or> d = 9 \<or> d = 10 \<or> d = 11 \<or> d = 12 \<or> d = 13 \<or> d = 14 \<or> d = 15" by arith
  then show ?thesis
    by (elim disjE; simp add: hex_val_def upper_char_def hex_digit_def ascii_lowercase_def ascii_uppercase_def)
qed

lemma upper_digit_not_minus: "d < 16 \<Longrightarrow> upper_char (hex_digit d) \<noteq> CHR ''-''"
proof -
  assume "d < 16"
  then have "d = 0 \<or> d = 1 \<or> d = 2 \<or> d = 3 \<or> d = 4 \<or> d = 5 \<or> d = 6 \<or> d = 7 \<or> d = 8
      \<or> d = 9 \<or> d = 10 \<or> d = 11 \<or> d = 12 \<or> d = 13 \<or> d = 14 \<or> d = 15" by arith
  then show ?thesis
    by (elim disjE; simp add: upper_char_def hex_digit_def ascii_lowercase_def ascii_uppercase_def)
qed

lemma parse_hex_from_snoc:
  "parse_hex_from acc (cs @ [c]) =
     (case parse_hex_from acc cs of None \<Rightarrow> None
      | Some a \<Rightarrow> (case hex_val c of None \<Rightarrow> None | Some d \<Rightarrow> Some (16 * a + d)))"
  by (induction cs arbitrary: acc) (auto split: option.splits)

lemma hex_digits_nonempty: "hex_digits n \<noteq> []"
  by (subst hex_digits.simps) simp

lemma parse_hex_from_digits: "parse_hex_from 0 (upper (hex_digits n)) = Some n"
proof (induction n rule: hex_digits.induct)
  case (1 n)
  show ?case
  proof (cases "n < 16")
    case True
    then show ?thesis
      by (subst hex_digits.simps) (simp add: upper_def hex_val_upper_digit)
  next
    case False
    with 1 have ih: "parse_hex_from 0 (upper (hex_digits (n div 16))) = Some (n div 16)" by simp
    have "upper (hex_digits n) = upper (hex_digits (n div 16)) @ [upper_char (hex_digit (n mod 16))]"
      using False by (subst hex_digits.simps) (simp add: upper_def)
    then show ?thesis
      by (simp add: parse_hex_from_snoc ih hex_val_upper_digit)
  qed
qed

lemma parse_hex_digits: "parse_hex (upper (hex_digits n)) = Some n"
  using hex_digits_nonempty [of n] by (simp add: parse_hex_def parse_hex_from_digits) (simp add: upper_def)

lemma no_minus_digits: "CHR ''-'' \<notin> set (upper (hex_digits n))"
proof (induction n rule: hex_digits.induct)
  case (1 n)
  show ?case
  proof (cases "n < 16")
    case True
    then show ?thesis
      using upper_digit_not_minus [of n] by (subst hex_digits.simps) (auto simp: upper_def)
  next
    case False
    with 1 have ih: "CHR ''-'' \<notin> set (upper (hex_digits (n div 16)))" by simp
    have "upper (hex_digits n) = upper (hex_digits (n div 16)) @ [upper_char (hex_digit (n mod 16))]"
      using False by (subst hex_digits.simps) (simp add: upper_def)
    then show ?thesis
      using ih upper_digit_not_minus [of "n mod 16"] by auto
  qed
qed

lemma enc_nonneg: "0 \<le> c \<Longrightarrow> enc c = upper (hex_digits (nat c))"
  by (simp add: enc_def hex_def)

lemma parse_hex_enc: "0 \<le> c \<Longrightarrow> parse_hex (enc c) = Some (nat c)"
  by (simp add: enc_nonneg parse_hex_digits)

lemma takeWhile_enc:
  "0 \<le> c \<Longrightarrow> takeWhile (\<lambda>x. x \<noteq> CHR ''-'') (enc c @ rest) = enc c @ takeWhile (\<lambda>x. x \<noteq> CHR ''-'') rest"
proof -
  assume "0 \<le> c"
  then have "\<And>x. x \<in> set (enc c) \<Longrightarrow> x \<noteq> CHR ''-''"
    using no_minus_digits [of "nat c"] by (auto simp: enc_nonneg)
  then show ?thesis by simp
qed

lemma takeWhile_enc_all: "0 \<le> c \<Longrightarrow> takeWhile (\<lambda>x. x \<noteq> CHR ''-'') (enc c) = enc c"
  using takeWhile_enc [of c "[]"] by simp


lemma dropWhile_enc:
  "0 \<le> c \<Longrightarrow> dropWhile (\<lambda>x. x \<noteq> CHR ''-'') (enc c @ rest) = dropWhile (\<lambda>x. x \<noteq> CHR ''-'') rest"
proof -
  assume "0 \<le> c"
  then have "\<And>x. x \<in> set (enc c) \<Longrightarrow> x \<noteq> CHR ''-''"
    using no_minus_digits [of "nat c"] by (auto simp: enc_nonneg)
  then show ?thesis by simp
qed

lemma dropWhile_enc_all: "0 \<le> c \<Longrightarrow> dropWhile (\<lambda>x. x \<noteq> CHR ''-'') (enc c) = []"
  using dropWhile_enc [of c "[]"] by simp

lemma decode_fmt_range:
  assumes "0 \<le> a" "a \<le> b"
  shows "decode_descriptor (fmt_range a b) = Some (a, b)"
proof (cases "b > a")
  case True
  have b: "0 \<le> b" using assms by simp
  have "fmt_range a b = CHR ''U'' # CHR ''+'' # (enc a @ CHR ''-'' # enc b)"
    using True by (simp add: fmt_range_def)
  then show ?thesis
    using assms b
    by (simp add: decode_descriptor_def takeWhile_enc dropWhile_enc parse_hex_enc)
next
  case False
  then have ab: "b = a" using assms by simp
  have "fmt_range a b = CHR ''U'' # CHR ''+'' # enc a"
    using False by (simp add: fmt_range_def)
  then show ?thesis
    using assms(1) ab
    by (simp add: decode_descriptor_def takeWhile_enc_all dropWhile_enc_all parse_hex_enc)
qed

lemma covered_Nil: "covered [] = {}"
  by (simp add: covered_def)

lemma covered_Cons: "covered ((a, b) # ivs) = {a..b} \<union> covered ivs"
  by (simp add: covered_def)

lemma covered_iff: "x \<in> covered ivs \<longleftrightarrow> (\<exists>(a, b) \<in> set ivs. a \<le> x \<and> x \<le> b)"
  by (induction ivs) (auto simp: covered_Nil covered_Cons)

lemma covered_runs:
  "sorted (e # xs) \<Longrightarrow> distinct (e # xs) \<Longrightarrow> s \<le> e \<Longrightarrow> covered (runs s e xs) = {s..e} \<union> set xs"
proof (induction xs arbitrary: s e)
  case Nil
  then show ?case by (simp add: covered_Cons covered_Nil)
next
  case (Cons i rest)
  have step: "sorted (i # rest)" "distinct (i # rest)" "e < i"
    using Cons.prems by auto
  show ?case
  proof (cases "i = e + 1")
    case True
    have "covered (runs s i rest) = {s..i} \<union> set rest"
      using Cons.IH [of i s] step Cons.prems(3) by simp
    moreover have "{s..i} = insert i {s..e}"
      using True Cons.prems(3) by auto
    ultimately show ?thesis using True by simp
  next
    case False
    have "covered (runs i i rest) = {i..i} \<union> set rest"
      using Cons.IH [of i i] step by simp
    then show ?thesis using False by (simp add: covered_Cons)
  qed
qed

lemma runs_starts: "(a, b) \<in> set (runs s e xs) \<Longrightarrow> a = s \<or> a \<in> set xs"
  by (induction xs arbitrary: s e) (auto split: if_splits)

lemma runs_hd: "\<exists>b rest'. runs s e xs = (s, b) # rest' \<and> e \<le> b"
proof (induction xs arbitrary: e)
  case Nil
  then show ?case by simp
next
  case (Cons i rest)
  show ?case
  proof (cases "i = e + 1")
    case True
    then show ?thesis using Cons [of i] by auto
  next
    case False
    then show ?thesis by simp
  qed
qed

lemma separated_Cons:
  "separated ((a, b) # ivs) \<longleftrightarrow>
     a \<le> b \<and> separated ivs \<and> (case ivs of [] \<Rightarrow> True | (c, d) # _ \<Rightarrow> b + 1 < c)"
  by (cases ivs) auto

lemma separated_runs:
  "sorted (e # xs) \<Longrightarrow> distinct (e # xs) \<Longrightarrow> s \<le> e \<Longrightarrow> separated (runs s e xs)"
proof (induction xs arbitrary: s e)
  case Nil
  then show ?case by simp
next
  case (Cons i rest)
  have step: "sorted (i # rest)" "distinct (i # rest)" "e < i"
    using Cons.prems by auto
  show ?case
  proof (cases "i = e + 1")
    case True
    then show ?thesis using Cons.IH [of i s] step Cons.prems(3) by simp
  next
    case False
    obtain b rest' where r: "runs i i rest = (i, b) # rest'"
      using runs_hd [of i i rest] by blast
    have "separated (runs i i rest)" using Cons.IH [of i i] step by simp
    then show ?thesis
      using False step(3) Cons.prems(3) r by (simp add: separated_Cons)
  qed
qed

lemma separated_later:
  "separated ((a, b) # ivs) \<Longrightarrow> (c, d) \<in> set ivs \<Longrightarrow> b + 1 < c \<and> c \<le> d"
proof (induction ivs arbitrary: a b)
  case Nil
  then show ?case by simp
next
  case (Cons iv ivs)
  obtain a' b' where iv: "iv = (a', b')" by (cases iv)
  have h: "a \<le> b" "b + 1 < a'" "separated ((a', b') # ivs)"
    using Cons.prems(1) iv by auto
  show ?case
  proof (cases "(c, d) = iv")
    case True
    then show ?thesis using h iv by (cases ivs) auto
  next
    case False
    then have "(c, d) \<in> set ivs" using Cons.prems(2) by simp
    then have "b' + 1 < c \<and> c \<le> d" using Cons.IH [of a' b'] h(3) by simp
    moreover have "a' \<le> b'" using h(3) by (cases ivs) auto
    ultimately show ?thesis using h by simp
  qed
qed

lemma separated_tail: "separated (iv # ivs) \<Longrightarrow> separated ivs"
  by (cases iv; cases ivs) auto

lemma separated_nonempty: "separated ivs \<Longrightarrow> (a, b) \<in> set ivs \<Longrightarrow> a \<le> b"
proof (induction ivs)
  case Nil
  then show ?case by simp
next
  case (Cons iv ivs)
  then show ?case
    using separated_tail [of iv ivs] by (cases iv; cases ivs) auto
qed

lemma separated_start:
  "separated ivs \<Longrightarrow> (a, b) \<in> set ivs \<Longrightarrow> a \<in> covered ivs \<and> a - 1 \<notin> covered ivs"
proof (induction ivs)
  case Nil
  then show ?case by simp
next
  case (Cons iv ivs)
  obtain a' b' where iv: "iv = (a', b')" by (cases iv)
  have tl: "separated ivs" using Cons.prems(1) separated_tail by blast
  have later: "\<And>c d. (c, d) \<in> set ivs \<Longrightarrow> b' + 1 < c \<and> c \<le> d"
    using separated_later Cons.prems(1) iv by blast
  have ne: "a' \<le> b'" using separated_nonempty [OF Cons.prems(1), of a' b'] iv by simp
  show ?case
  proof (cases "(a, b) = iv")
    case True
    then have "a = a'" using iv by simp
    moreover have "a' - 1 \<notin> covered ivs"
      using later ne by (fastforce simp: covered_iff)
    ultimately show ?thesis using ne iv by (auto simp: covered_Cons)
  next
    case False
    then have m: "(a, b) \<in> set ivs" using Cons.prems(2) by simp
    then have ih: "a \<in> covered ivs \<and> a - 1 \<notin> covered ivs" using Cons.IH tl by simp
    have "b' + 1 < a" using later m by blast
    then show ?thesis using ih iv by (auto simp: covered_Cons)
  qed
qed

lemma separated_distinct_starts: "separated ivs \<Longrightarrow> distinct (map fst ivs)"
proof (induction ivs)
  case Nil
  then show ?case by simp
next
  case (Cons iv ivs)
  obtain a' b' where iv: "iv = (a', b')" by (cases iv)
  have tl: "separated ivs" using Cons.prems separated_tail by blast
  have ne: "a' \<le> b'" using separated_nonempty [OF Cons.prems, of a' b'] iv by simp
  have "a' \<notin> fst ` set ivs"
  proof
    assume "a' \<in> fst ` set ivs"
    then obtain d where "(a', d) \<in> set ivs" by force
    then have "b' + 1 < a'" using separated_later Cons.prems iv by blast
    then show False using ne by simp
  qed
  then show ?case using Cons.IH tl iv by simp
qed

lemma separated_minimal:
  assumes "separated ivs" "covered ivs' = covered ivs"
  shows "length ivs \<le> length ivs'"
proof -
  have sub: "fst ` set ivs \<subseteq> fst ` set ivs'"
  proof
    fix a assume "a \<in> fst ` set ivs"
    then obtain b where ab: "(a, b) \<in> set ivs" by force
    have in_c: "a \<in> covered ivs'" and pred: "a - 1 \<notin> covered ivs'"
      using separated_start [OF assms(1) ab] assms(2) by simp_all
    from in_c obtain a' b' where m: "(a', b') \<in> set ivs'" "a' \<le> a" "a \<le> b'"
      by (auto simp: covered_iff)
    have "a' = a"
    proof (rule ccontr)
      assume "a' \<noteq> a"
      then have "a' \<le> a - 1" "a - 1 \<le> b'" using m by simp_all
      then have "a - 1 \<in> covered ivs'" using m(1) by (auto simp: covered_iff)
      then show False using pred by simp
    qed
    then show "a \<in> fst ` set ivs'" using m(1) by force
  qed
  have "length ivs = card (fst ` set ivs)"
    using separated_distinct_starts [OF assms(1)] distinct_card [of "map fst ivs"] by simp
  also have "\<dots> \<le> card (fst ` set ivs')"
    using sub by (simp add: card_mono)
  also have "\<dots> \<le> length ivs'"
    using card_length [of "map fst ivs'"] by simp
  finally show ?thesis .
qed

lemma decode_intervals_fmt:
  "\<forall>(a, b) \<in> set ivs. 0 \<le> a \<and> a \<le> b \<Longrightarrow>
     decode_intervals (map (\<lambda>(a, b). fmt_range a b) ivs) = Some ivs"
  by (induction ivs) (auto simp: decode_fmt_range)

lemma encode_list: "ints_to_unicode_range (IntList xs) = map (\<lambda>(a, b). fmt_range a b) (intervals_of (sort xs))"
proof (cases "sort xs")
  case Nil
  then have "xs = []" by (metis length_sort length_0_conv)
  then show ?thesis by (simp add: ints_to_unicode_range_def)
next
  case (Cons x rest)
  then have "xs \<noteq> []" by auto
  then show ?thesis using Cons by (simp add: ints_to_unicode_range_def range_loop_runs)
qed

lemma encode_set:
  "finite S \<Longrightarrow> ints_to_unicode_range (IntSet S) = map (\<lambda>(a, b). fmt_range a b) (intervals_of (sorted_list_of_set S))"
proof (cases "sorted_list_of_set S")
  case Nil
  assume "finite S"
  then have "S = {}" using Nil by simp
  then show ?thesis by (simp add: ints_to_unicode_range_def)
next
  case (Cons x rest)
  assume "finite S"
  then have "card S \<noteq> 0" using Cons by auto
  then show ?thesis using Cons by (simp add: ints_to_unicode_range_def range_loop_runs)
qed

lemma sorted_ints_dup_free:
  "dup_free ints \<Longrightarrow> sorted_ints ints = sorted_list_of_set (elems ints) \<and> finite (elems ints)"
  by (cases ints) (simp_all add: sorted_list_of_set_sort_remdups distinct_remdups_id)

lemma encode_dup_free:
  "dup_free ints \<Longrightarrow>
     ints_to_unicode_range ints = map (\<lambda>(a, b). fmt_range a b) (intervals_of (sorted_list_of_set (elems ints)))"
  by (cases ints) (simp_all add: encode_list encode_set sorted_list_of_set_sort_remdups distinct_remdups_id)

lemma intervals_of_sorted:
  assumes "sorted xs" "distinct xs"
  shows "separated (intervals_of xs)" and "covered (intervals_of xs) = set xs"
    and "\<And>a b. (a, b) \<in> set (intervals_of xs) \<Longrightarrow> a \<in> set xs"
proof -
  show "separated (intervals_of xs)"
    using assms by (cases xs) (simp_all add: separated_runs)
  show "covered (intervals_of xs) = set xs"
    using assms by (cases xs) (simp_all add: covered_runs covered_Nil)
  show "\<And>a b. (a, b) \<in> set (intervals_of xs) \<Longrightarrow> a \<in> set xs"
    using runs_starts by (cases xs) auto
qed

lemma intervals_of_set:
  assumes "finite S"
  shows "separated (intervals_of (sorted_list_of_set S))"
    and "covered (intervals_of (sorted_list_of_set S)) = S"
    and "\<And>a b. (a, b) \<in> set (intervals_of (sorted_list_of_set S)) \<Longrightarrow> a \<in> S"
  using intervals_of_sorted [of "sorted_list_of_set S"] assms by simp_all

lemma decode_encode_intervals:
  assumes "finite S" "\<forall>x\<in>S. 0 \<le> x"
  shows "decode_intervals (map (\<lambda>(a, b). fmt_range a b) (intervals_of (sorted_list_of_set S)))
           = Some (intervals_of (sorted_list_of_set S))"
proof -
  have "0 \<le> a \<and> a \<le> b" if m: "(a, b) \<in> set (intervals_of (sorted_list_of_set S))" for a b
  proof -
    have "a \<in> S" using intervals_of_set(3) [OF assms(1)] m by blast
    then have "0 \<le> a" using assms(2) by blast
    moreover have "a \<le> b" using separated_nonempty [OF intervals_of_set(1) [OF assms(1)] m] .
    ultimately show ?thesis by simp
  qed
  then show ?thesis by (intro decode_intervals_fmt) auto
qed

lemma decode_encode:
  assumes "dup_free ints" "\<forall>x\<in>elems ints. 0 \<le> x"
  shows "decode_range (ints_to_unicode_range ints) = Some (elems ints)"
proof -
  have fin: "finite (elems ints)" using assms(1) sorted_ints_dup_free by blast
  show ?thesis
    using decode_encode_intervals [OF fin assms(2)] intervals_of_set(2) [OF fin]
    by (simp add: decode_range_def encode_dup_free [OF assms(1)])
qed

text \<open>
  Claim C1. For every finite set of non-negative integers the descriptors returned by
  \<open>ints_to_unicode_range\<close> decode to exactly that set, encoding the decoded form of
  the output gives the same descriptors again, and the empty set is encoded as the empty
  sequence.
\<close>

theorem range_encoder_round_trip:
  assumes "finite S" and "\<forall>x\<in>S. 0 \<le> x"
  shows "decode_range (ints_to_unicode_range (IntSet S)) = Some S
       \<and> ints_to_unicode_range (IntSet (the (decode_range (ints_to_unicode_range (IntSet S)))))
           = ints_to_unicode_range (IntSet S)
       \<and> ints_to_unicode_range (IntSet {}) = []"
proof -
  have "decode_range (ints_to_unicode_range (IntSet S)) = Some S"
    using decode_encode [of "IntSet S"] assms by simp
  then show ?thesis by (simp add: ints_to_unicode_range_def)
qed

theorem range_encoder_round_trip_witness:
  "decode_range (ints_to_unicode_range (IntSet {65, 66, 67, 97})) = Some {65, 66, 67, 97}
   \<and> ints_to_unicode_range (IntSet (the (decode_range (ints_to_unicode_range (IntSet {65, 66, 67, 97})))))
       = ints_to_unicode_range (IntSet {65, 66, 67, 97})
   \<and> ints_to_unicode_range (IntSet {65, 66, 67, 97}) = [''U+41-43'', ''U+61'']"
proof -
  have "finite {65, 66, 67, 97 :: int}" "\<forall>x\<in>{65, 66, 67, 97 :: int}. 0 \<le> x" by simp_all
  from range_encoder_round_trip [OF this]
  have "decode_range (ints_to_unicode_range (IntSet {65, 66, 67, 97})) = Some {65, 66, 67, 97}
   \<and> ints_to_unicode_range (IntSet (the (decode_range (ints_to_unicode_range (IntSet {65, 66, 67, 97})))))
       = ints_to_unicode_range (IntSet {65, 66, 67, 97})" by simp
  moreover have "ints_to_unicode_range (IntSet {65, 66, 67, 97}) = [''U+41-43'', ''U+61'']"
    by code_simp
  ultimately show ?thesis by simp
qed

lemma decode_intervals_length: "decode_intervals ds = Some ivs \<Longrightarrow> length ivs = length ds"
  by (induction ds arbitrary: ivs) (auto split: option.splits)

lemma fmt_range_render:
  "a \<le> b \<Longrightarrow> fmt_range a b = (if a = b then ''U+'' @ enc a else ''U+'' @ enc a @ ''-'' @ enc b)"
  by (simp add: fmt_range_def)

text \<open>
  Claim C7. For duplicate-free input of non-negative integers the output of
  \<open>ints_to_unicode_range\<close> is a list of intervals in ascending order, no two of them
  adjacent or overlapping (so none can be merged), covering exactly the input; a run of
  one point is rendered without an end part; and no descriptor sequence that decodes to
  the same set is shorter.
\<close>

theorem encoder_minimal:
  assumes "dup_free ints" and "\<forall>x\<in>elems ints. 0 \<le> x"
  shows "\<exists>ivs. decode_intervals (ints_to_unicode_range ints) = Some ivs
           \<and> ints_to_unicode_range ints =
               map (\<lambda>(a, b). if a = b then ''U+'' @ enc a else ''U+'' @ enc a @ ''-'' @ enc b) ivs
           \<and> separated ivs \<and> covered ivs = elems ints
           \<and> (\<forall>ds. decode_range ds = Some (elems ints) \<longrightarrow>
                  length (ints_to_unicode_range ints) \<le> length ds)"
proof -
  define ivs where "ivs = intervals_of (sorted_list_of_set (elems ints))"
  have fin: "finite (elems ints)" using assms(1) sorted_ints_dup_free by blast
  have out: "ints_to_unicode_range ints = map (\<lambda>(a, b). fmt_range a b) ivs"
    using encode_dup_free [OF assms(1)] by (simp add: ivs_def)
  have sep: "separated ivs" and cov: "covered ivs = elems ints"
    using intervals_of_set [OF fin] by (simp_all add: ivs_def)
  have dec: "decode_intervals (ints_to_unicode_range ints) = Some ivs"
    using decode_encode_intervals [OF fin assms(2)] out by (simp add: ivs_def)
  have render: "ints_to_unicode_range ints =
      map (\<lambda>(a, b). if a = b then ''U+'' @ enc a else ''U+'' @ enc a @ ''-'' @ enc b) ivs"
    unfolding out
  proof (rule map_cong [OF refl])
    fix iv assume m: "iv \<in> set ivs"
    obtain a b where iv: "iv = (a, b)" by (cases iv)
    have "a \<le> b" using separated_nonempty [OF sep] m iv by simp
    then show "(case iv of (a, b) \<Rightarrow> fmt_range a b) =
        (case iv of (a, b) \<Rightarrow> if a = b then ''U+'' @ enc a else ''U+'' @ enc a @ ''-'' @ enc b)"
      using iv by (simp add: fmt_range_render)
  qed
  have minimal: "length (ints_to_unicode_range ints) \<le> length ds"
    if d: "decode_range ds = Some (elems ints)" for ds
  proof -
    from d obtain ivs' where i': "decode_intervals ds = Some ivs'" "covered ivs' = elems ints"
      by (auto simp: decode_range_def)
    have "length ivs \<le> length ivs'"
      using separated_minimal [OF sep] i'(2) cov by simp
    then show ?thesis using decode_intervals_length [OF i'(1)] out by simp
  qed
  show ?thesis using dec render sep cov minimal by blast
qed

theorem encoder_minimal_witness:
  "(\<exists>ivs. decode_intervals (ints_to_unicode_range (IntList [97, 65, 67, 66])) = Some ivs
        \<and> separated ivs \<and> covered ivs = {97, 65, 67, 66})
   \<and> length (ints_to_unicode_range (IntList [97, 65, 67, 66])) \<le> length [''U+41'', ''U+42-43'', ''U+61'']
   \<and> ints_to_unicode_range (IntList [97, 65, 67, 66]) = [''U+41-43'', ''U+61'']"
proof -
  have h: "dup_free (IntList [97, 65, 67, 66])" "\<forall>x\<in>elems (IntList [97, 65, 67, 66]). 0 \<le> x"
    by simp_all
  have d: "decode_range [''U+41'', ''U+42-43'', ''U+61''] = Some (elems (IntList [97, 65, 67, 66]))"
    by code_simp
  have "ints_to_unicode_range (IntList [97, 65, 67, 66]) = [''U+41-43'', ''U+61'']"
    by code_simp
  then show ?thesis
    using encoder_minimal [OF h] d by auto
qed

lemma runs_length_start: "length (runs s e ys) = length (runs s' e ys)"
  by (induction ys arbitrary: s s' e) auto

lemma runs_length_dups:
  "sorted (e # ys) \<Longrightarrow>
     length (runs s e ys) + length (remdups_adj (e # ys)) =
     length (runs s e (tl (remdups_adj (e # ys)))) + Suc (length ys)"
proof (induction ys arbitrary: s e)
  case Nil
  then show ?case by simp
next
  case (Cons i rest)
  have "sorted (i # rest)" using Cons.prems by simp
  note ih = Cons.IH [OF this]
  define T where "T = tl (remdups_adj (i # rest))"
  have split: "remdups_adj (i # rest) = i # T"
    by (simp add: T_def)
  have ihT: "length (runs s' i rest) + Suc (length T) = length (runs s' i T) + Suc (length rest)" for s'
    using ih [of s'] by (simp add: split)
  show ?case
  proof (cases "e = i")
    case True
    have A: "tl (remdups_adj (e # i # rest)) = T" using True by (simp add: split)
    have B: "length (remdups_adj (e # i # rest)) = Suc (length T)" using True by (simp add: split)
    have R1: "runs s e (i # rest) = (s, e) # runs i i rest" using True by simp
    have R2: "length (runs s e T) = length (runs i i T)" using True by (simp add: runs_length_start [of s i T i])
    show ?thesis unfolding A B R1 R2 using ihT [of i] by simp
  next
    case False
    have A: "tl (remdups_adj (e # i # rest)) = i # T" using False by (simp add: split)
    have B: "length (remdups_adj (e # i # rest)) = Suc (Suc (length T))" using False by (simp add: split)
    show ?thesis
    proof (cases "i = e + 1")
      case True
      have R1: "runs s e (i # rest) = runs s i rest" using True by simp
      have R2: "runs s e (i # T) = runs s i T" using True by simp
      show ?thesis unfolding A B R1 R2 using ihT [of s] by simp
    next
      case n: False
      have R1: "runs s e (i # rest) = (s, e) # runs i i rest" using n by simp
      have R2: "runs s e (i # T) = (s, e) # runs i i T" using n by simp
      show ?thesis unfolding A B R1 R2 using ihT [of i] by simp
    qed
  qed
qed

lemma sorted_remdups_adj_distinct: "sorted xs \<Longrightarrow> distinct (remdups_adj xs)"
  by (induction xs rule: remdups_adj.induct) auto

lemma remdups_adj_sort: "remdups_adj (sort xs) = sorted_list_of_set (set (xs :: int list))"
  by (rule sorted_distinct_set_unique) (simp_all add: sorted_remdups_adj_distinct)

lemma encode_length_dups:
  "length (ints_to_unicode_range (IntList xs)) =
     length (ints_to_unicode_range (IntSet (set xs))) + (length xs - card (set xs))"
proof (cases "sort xs")
  case Nil
  then have "xs = []" by (metis length_sort length_0_conv)
  then show ?thesis by (simp add: ints_to_unicode_range_def)
next
  case (Cons e ys)
  have len: "Suc (length ys) = length xs" using Cons by (metis length_sort length_Cons)
  have r1: "sorted_list_of_set (set xs) = remdups_adj (e # ys)"
    using remdups_adj_sort [of xs] Cons by simp
  have r2: "remdups_adj (e # ys) = e # tl (remdups_adj (e # ys))" by simp
  have rd: "sorted_list_of_set (set xs) = e # tl (remdups_adj (e # ys))"
    by (rule trans [OF r1 r2])
  have card: "length (remdups_adj (e # ys)) = card (set xs)"
    using remdups_adj_sort [of xs] Cons by (metis length_sorted_list_of_set)
  have "sorted (e # ys)" using Cons by (metis sorted_sort)
  from runs_length_dups [OF this, of e]
  have eq: "length (runs e e ys) + card (set xs) = length (runs e e (tl (remdups_adj (e # ys)))) + length xs"
    using card len by simp
  have le: "card (set xs) \<le> length xs" by (rule card_length)
  have L: "length (ints_to_unicode_range (IntList xs)) = length (runs e e ys)"
    using Cons by (simp add: encode_list)
  have "intervals_of (sorted_list_of_set (set xs)) = runs e e (tl (remdups_adj (e # ys)))"
    by (subst rd) (rule intervals_of.simps(2))
  then have S: "length (ints_to_unicode_range (IntSet (set xs))) = length (runs e e (tl (remdups_adj (e # ys))))"
    by (simp add: encode_set)
  show ?thesis unfolding L S using eq le by simp
qed

text \<open>
  Claim C10. Given a list with a repeated integer, the loop closes the current descriptor
  at each repeated occurrence and opens a new one: \<open>[1, 1]\<close> is encoded as two
  descriptors for the same code point, unlike the set of its elements. In general every
  repetition costs one descriptor, so the output for a list is that of its set of
  elements exactly when the list is duplicate-free.
\<close>

theorem duplicates_split_descriptors:
  "ints_to_unicode_range (IntList [1, 1]) = [''U+1'', ''U+1'']
   \<and> ints_to_unicode_range (IntSet (set [1, 1])) = [''U+1'']
   \<and> decode_range (ints_to_unicode_range (IntList [1, 1])) = Some {1}
   \<and> range_loop chunks s e (e # rest) = range_loop (chunks @ [fmt_range s e]) e e rest
   \<and> length (ints_to_unicode_range (IntList xs)) =
       length (ints_to_unicode_range (IntSet (set xs))) + (length xs - card (set xs))
   \<and> (ints_to_unicode_range (IntList xs) = ints_to_unicode_range (IntSet (set xs))) = distinct xs"
proof -
  have a: "ints_to_unicode_range (IntList [1, 1]) = [''U+1'', ''U+1'']" by code_simp
  have b: "ints_to_unicode_range (IntSet (set [1, 1])) = [''U+1'']" by code_simp
  have c: "decode_range [''U+1'', ''U+1''] = Some {1}" by code_simp
  have d: "range_loop chunks s e (e # rest) = range_loop (chunks @ [fmt_range s e]) e e rest"
    by simp
  have e: "(ints_to_unicode_range (IntList xs) = ints_to_unicode_range (IntSet (set xs))) = distinct xs"
  proof
    assume "ints_to_unicode_range (IntList xs) = ints_to_unicode_range (IntSet (set xs))"
    then have "length xs - card (set xs) = 0" using encode_length_dups [of xs] by simp
    moreover have "card (set xs) \<le> length xs" by (rule card_length)
    ultimately show "distinct xs" by (simp add: card_distinct)
  next
    assume "distinct xs"
    then show "ints_to_unicode_range (IntList xs) = ints_to_unicode_range (IntSet (set xs))"
      using encode_dup_free [of "IntList xs"] encode_dup_free [of "IntSet (set xs)"] by simp
  qed
  show ?thesis using a b c d e encode_length_dups [of xs] by simp
qed

section \<open>Properties of the font inventory\<close>

text \<open>
  Claim C9. A call of \<open>available_unicode_characters\<close> that returns leaves its value in
  the cache of the file, and every later call on that file returns the same value
  without opening the font or changing anything. When the cache was empty, the call
  opened the font once and its value is the sorted, duplicate-free list of the union of
  the keys of all subtables; when it was filled, the call touched nothing.
\<close>

theorem coverage_cache:
  assumes "available_unicode_characters ev f w = (Inr v, f1, w1)"
  shows "unicodes_available f1 = Some v
       \<and> (\<forall>ev' w'. available_unicode_characters ev' f1 w' = (Inr v, f1, w'))
       \<and> (unicodes_available f = None \<longrightarrow>
            (\<exists>tables. read_cmap ev (file_path f) = Inr tables
               \<and> sorted v \<and> distinct v \<and> set v = \<Union> (set ` set tables))
            \<and> calls w1 = calls w @ [OpenFont (file_path f)])
       \<and> (unicodes_available f \<noteq> None \<longrightarrow> f1 = f \<and> w1 = w)"
proof (cases "unicodes_available f")
  case None
  from assms None obtain tables where t: "read_cmap ev (file_path f) = Inr tables"
    by (cases "read_cmap ev (file_path f)") (auto simp: available_unicode_characters_def Let_def)
  from assms None t have v: "v = sorted_list_of_set (set (concat tables))"
    and f1: "f1 = f\<lparr>unicodes_available := Some v\<rparr>"
    and w1: "w1 = w\<lparr>calls := calls w @ [OpenFont (file_path f)]\<rparr>"
    by (auto simp: available_unicode_characters_def Let_def)
  have "sorted v" "distinct v" "set v = \<Union> (set ` set tables)"
    using v by simp_all
  moreover have "\<forall>ev' w'. available_unicode_characters ev' f1 w' = (Inr v, f1, w')"
    using f1 by (simp add: available_unicode_characters_def)
  ultimately show ?thesis using None t f1 w1 by simp
next
  case (Some cached)
  with assms have "v = cached" "f1 = f" "w1 = w"
    by (auto simp: available_unicode_characters_def)
  then show ?thesis using Some by (simp add: available_unicode_characters_def)
qed

theorem coverage_cache_witness:
  "available_unicode_characters
     \<lparr>isfile = (\<lambda>_. True), isdir = (\<lambda>_. False), relpath = (\<lambda>p r. p), makedirs = (\<lambda>_. None),
      read_cmap = (\<lambda>_. Inr [[66, 65, 97], [65, 8364]]), subset_main = (\<lambda>_. None),
      repr_variant = (\<lambda>_. [])\<rparr>
     (from_path ''Font-Bold.ttf'' None)
     \<lparr>indent_level = 0, stdout = [], calls = []\<rparr>
   = (Inr [65, 66, 97, 8364],
      (from_path ''Font-Bold.ttf'' None)\<lparr>unicodes_available := Some [65, 66, 97, 8364]\<rparr>,
      \<lparr>indent_level = 0, stdout = [], calls = [OpenFont ''Font-Bold.ttf'']\<rparr>)
   \<and> available_unicode_characters
       \<lparr>isfile = (\<lambda>_. True), isdir = (\<lambda>_. False), relpath = (\<lambda>p r. p), makedirs = (\<lambda>_. None),
        read_cmap = (\<lambda>_. Inl (ExternalError ''gone'')), subset_main = (\<lambda>_. None),
        repr_variant = (\<lambda>_. [])\<rparr>
       ((from_path ''Font-Bold.ttf'' None)\<lparr>unicodes_available := Some [65, 66, 97, 8364]\<rparr>)
       \<lparr>indent_level = 0, stdout = [], calls = [OpenFont ''Font-Bold.ttf'']\<rparr>
     = (Inr [65, 66, 97, 8364],
        (from_path ''Font-Bold.ttf'' None)\<lparr>unicodes_available := Some [65, 66, 97, 8364]\<rparr>,
        \<lparr>indent_level = 0, stdout = [], calls = [OpenFont ''Font-Bold.ttf'']\<rparr>)"
proof -
  let ?ev = "\<lparr>isfile = (\<lambda>_. True), isdir = (\<lambda>_. False), relpath = (\<lambda>p r. p), makedirs = (\<lambda>_. None),
      read_cmap = (\<lambda>_. Inr [[66, 65, 97], [65, 8364]]), subset_main = (\<lambda>_. None),
      repr_variant = (\<lambda>_. [])\<rparr>"
  let ?w = "\<lparr>indent_level = 0, stdout = [], calls = []\<rparr>"
  let ?f = "from_path ''Font-Bold.ttf'' None"
  have s: "sorted_list_of_set (set (concat [[66, 65, 97], [65, 8364 :: int]])) = [65, 66, 97, 8364]"
    by code_simp
  have first: "available_unicode_characters ?ev ?f ?w
      = (Inr [65, 66, 97, 8364], ?f\<lparr>unicodes_available := Some [65, 66, 97, 8364]\<rparr>,
         \<lparr>indent_level = 0, stdout = [], calls = [OpenFont ''Font-Bold.ttf'']\<rparr>)"
    unfolding available_unicode_characters_def Let_def s [symmetric]
    by (simp add: from_path_def)
  from coverage_cache [OF first] show ?thesis using first by simp
qed

section \<open>Properties of the run over all subsets\<close>

lemma add_indent_calls [simp]: "calls (add_indent_level d w) = calls w"
  by (simp add: add_indent_level_def)

lemma Console_log_calls [simp]: "calls (Console_log args w) = calls w"
  by (simp add: Console_log_def)

lemma Console_log_indent [simp]: "indent_level (Console_log args w) = indent_level w"
  by (simp add: Console_log_def)

text \<open>
  Claim C8. When the file of the variant does not exist, \<open>font_file_to_subsets\<close> returns
  (the value \<open>None\<close>) without an error, the variant is as it was, so a list of subsets
  that was empty stays empty, and neither the font library nor the file system has been
  asked to produce anything.
\<close>

theorem missing_file_skipped:
  assumes "\<not> isfile ev (file_path (variant_file font_var))"
  shows "\<exists>w'. font_file_to_subsets ev font_var output_dir w = (Inr None, font_var, w')
           \<and> calls w' = calls w \<and> indent_level w' = indent_level w"
  using assms
  by (simp add: font_file_to_subsets_def font_file_to_subsets_body_def Let_def
        Console_group_def Console_group_end_def add_indent_level_def Console_log_def)

theorem missing_file_skipped_witness:
  "\<exists>w'. font_file_to_subsets
           \<lparr>isfile = (\<lambda>_. False), isdir = (\<lambda>_. False), relpath = (\<lambda>p r. p), makedirs = (\<lambda>_. None),
            read_cmap = (\<lambda>_. Inl (ExternalError ''missing'')), subset_main = (\<lambda>_. None),
            repr_variant = (\<lambda>_. ''FontVariant'')\<rparr>
           (new_variant ''woff2/Font-Bold.woff2'' ''bold'' 700) ''woff2''
           \<lparr>indent_level = 0, stdout = [], calls = []\<rparr>
         = (Inr None, new_variant ''woff2/Font-Bold.woff2'' ''bold'' 700, w')
       \<and> subsets (new_variant ''woff2/Font-Bold.woff2'' ''bold'' 700) = []
       \<and> calls w' = []"
proof -
  let ?ev = "\<lparr>isfile = (\<lambda>_. False), isdir = (\<lambda>_. False), relpath = (\<lambda>p r. p), makedirs = (\<lambda>_. None),
            read_cmap = (\<lambda>_. Inl (ExternalError ''missing'')), subset_main = (\<lambda>_. None),
            repr_variant = (\<lambda>_. ''FontVariant'')\<rparr>"
  have "\<not> isfile ?ev (file_path (variant_file (new_variant ''woff2/Font-Bold.woff2'' ''bold'' 700)))"
    by simp
  from missing_file_skipped [OF this, of "''woff2''" "\<lparr>indent_level = 0, stdout = [], calls = []\<rparr>"]
  show ?thesis by (auto simp: new_variant_def)
qed

section \<open>Properties of the parsing of file names\<close>

lemma weight_keys_prefix_free:
  "list_all (\<lambda>(k, v). list_all (\<lambda>(k', v'). prefix k k' \<longrightarrow> k = k' \<and> v = v')
      FONT_WEIGHT_NAME_TO_VALUE) FONT_WEIGHT_NAME_TO_VALUE"
  by code_simp

lemma find_Some_member: "find P xs = Some x \<Longrightarrow> x \<in> set xs \<and> P x"
  by (induction xs) (auto split: if_splits)

lemma weight_first_match:
  assumes "(k, v) \<in> set FONT_WEIGHT_NAME_TO_VALUE" "prefix k params"
  shows "\<exists>k'. find (\<lambda>(k, v). prefix k params) FONT_WEIGHT_NAME_TO_VALUE = Some (k', v)"
proof -
  have "find (\<lambda>(k, v). prefix k params) FONT_WEIGHT_NAME_TO_VALUE \<noteq> None"
    using assms by (auto simp: find_None_iff)
  then obtain k' v' where f: "find (\<lambda>(k, v). prefix k params) FONT_WEIGHT_NAME_TO_VALUE = Some (k', v')"
    by auto
  then have m: "(k', v') \<in> set FONT_WEIGHT_NAME_TO_VALUE" and p: "prefix k' params"
    using find_Some_member by fastforce+
  have free: "\<And>a b c d. (a, b) \<in> set FONT_WEIGHT_NAME_TO_VALUE \<Longrightarrow>
      (c, d) \<in> set FONT_WEIGHT_NAME_TO_VALUE \<Longrightarrow> prefix a c \<Longrightarrow> b = d"
    using weight_keys_prefix_free by (fastforce simp: list_all_iff)
  from prefix_same_cases [OF assms(2) p] have "v = v'"
  proof
    assume "prefix k k'"
    then show ?thesis using free [OF assms(1) m] by simp
  next
    assume "prefix k' k"
    then show ?thesis using free [OF m assms(1)] by simp
  qed
  then show ?thesis using f by auto
qed

lemma weight_normal: "map_of FONT_WEIGHT_NAME_TO_VALUE ''normal'' = Some 400"
  by (simp add: FONT_WEIGHT_NAME_TO_VALUE_def)

text \<open>
  Claim C5, as the code has it. The style token is the last part, after the last hyphen,
  of the file name without its extension, in lower case. When the token starts with a
  keyword of the table, the weight is the one of that keyword and nothing is printed;
  when it starts with none, the weight is 400 and the warning is printed; no file name
  makes the function raise.
\<close>

theorem weight_parsing:
  "((k, v) \<in> set FONT_WEIGHT_NAME_TO_VALUE \<and> prefix k (style_params p) \<longrightarrow>
      from_file_path p w = (Inr (new_variant p (style_params p) v), w))
   \<and> ((\<forall>(k, v) \<in> set FONT_WEIGHT_NAME_TO_VALUE. \<not> prefix k (style_params p)) \<longrightarrow>
        (\<exists>w'. from_file_path p w = (Inr (new_variant p (style_params p) 400), w')
           \<and> stdout w' = stdout w @
               map (\<lambda>t. replicate (indent_level w) CHR '' '' @ '' '' @ t @ [CHR 0x0A])
                 [replicate 80 CHR ''='',
                  ''WARNING! Unknown weight `'' @ style_params p @ ''` for `'' @ p @ ''`'',
                  replicate 80 CHR ''='']))
   \<and> (\<exists>fv w'. from_file_path p w = (Inr fv, w'))"
proof -
  have a: "from_file_path p w = (Inr (new_variant p (style_params p) v), w)"
    if "(k, v) \<in> set FONT_WEIGHT_NAME_TO_VALUE" "prefix k (style_params p)"
  proof -
    from weight_first_match [OF that] obtain k'
      where "find (\<lambda>(k, v). prefix k (style_params p)) FONT_WEIGHT_NAME_TO_VALUE = Some (k', v)" ..
    then show ?thesis by (simp add: from_file_path_def Let_def)
  qed
  have b: "\<exists>w'. from_file_path p w = (Inr (new_variant p (style_params p) 400), w')
           \<and> stdout w' = stdout w @
               map (\<lambda>t. replicate (indent_level w) CHR '' '' @ '' '' @ t @ [CHR 0x0A])
                 [replicate 80 CHR ''='',
                  ''WARNING! Unknown weight `'' @ style_params p @ ''` for `'' @ p @ ''`'',
                  replicate 80 CHR ''='']"
    if "\<forall>(k, v) \<in> set FONT_WEIGHT_NAME_TO_VALUE. \<not> prefix k (style_params p)"
  proof -
    have "find (\<lambda>(k, v). prefix k (style_params p)) FONT_WEIGHT_NAME_TO_VALUE = None"
      using that by (auto simp: find_None_iff)
    then show ?thesis
      by (simp add: from_file_path_def Let_def weight_normal Console_log_def)
  qed
  have c: "\<exists>fv w'. from_file_path p w = (Inr fv, w')"
  proof (cases "find (\<lambda>(k, v). prefix k (style_params p)) FONT_WEIGHT_NAME_TO_VALUE")
    case None
    then show ?thesis by (simp add: from_file_path_def Let_def weight_normal)
  next
    case (Some kv)
    then show ?thesis by (cases kv) (simp add: from_file_path_def Let_def)
  qed
  show ?thesis using a b c by blast
qed

theorem weight_parsing_witness:
  "from_file_path ''/a/path/to/My Font Name-BoldItalic.woff2'' \<lparr>indent_level = 2, stdout = [], calls = []\<rparr>
     = (Inr \<lparr>variant_file = \<lparr>file_path = ''/a/path/to/My Font Name-BoldItalic.woff2'', format = ''woff2'',
                               relative_to_path = None, unicodes_available = None\<rparr>,
             weight = 700, style = CssStr ''italic'', stretch = None, subsets = []\<rparr>,
        \<lparr>indent_level = 2, stdout = [], calls = []\<rparr>)
   \<and> fst (from_file_path ''dist/Font-Wide.ttf'' \<lparr>indent_level = 2, stdout = [], calls = []\<rparr>)
       = Inr \<lparr>variant_file = \<lparr>file_path = ''dist/Font-Wide.ttf'', format = ''ttf'',
                               relative_to_path = None, unicodes_available = None\<rparr>,
             weight = 400, style = CssStr ''normal'', stretch = None, subsets = []\<rparr>
   \<and> length (stdout (snd (from_file_path ''dist/Font-Wide.ttf'' \<lparr>indent_level = 2, stdout = [], calls = []\<rparr>))) = 3"
proof -
  let ?w = "\<lparr>indent_level = 2, stdout = [], calls = []\<rparr>"
  have p1: "style_params ''/a/path/to/My Font Name-BoldItalic.woff2'' = ''bolditalic''" by code_simp
  have p2: "style_params ''dist/Font-Wide.ttf'' = ''wide''" by code_simp
  have h1: "(''bold'', 700) \<in> set FONT_WEIGHT_NAME_TO_VALUE
            \<and> prefix ''bold'' (style_params ''/a/path/to/My Font Name-BoldItalic.woff2'')"
    unfolding p1 by (simp add: FONT_WEIGHT_NAME_TO_VALUE_def)
  have h2: "\<forall>(k, v) \<in> set FONT_WEIGHT_NAME_TO_VALUE. \<not> prefix k (style_params ''dist/Font-Wide.ttf'')"
    unfolding p2 by (simp add: FONT_WEIGHT_NAME_TO_VALUE_def)
  have n1: "new_variant ''/a/path/to/My Font Name-BoldItalic.woff2'' ''bolditalic'' 700
     = \<lparr>variant_file = \<lparr>file_path = ''/a/path/to/My Font Name-BoldItalic.woff2'', format = ''woff2'',
                               relative_to_path = None, unicodes_available = None\<rparr>,
             weight = 700, style = CssStr ''italic'', stretch = None, subsets = []\<rparr>"
    by code_simp
  have n2: "new_variant ''dist/Font-Wide.ttf'' ''wide'' 400
     = \<lparr>variant_file = \<lparr>file_path = ''dist/Font-Wide.ttf'', format = ''ttf'',
                               relative_to_path = None, unicodes_available = None\<rparr>,
             weight = 400, style = CssStr ''normal'', stretch = None, subsets = []\<rparr>"
    by code_simp
  from weight_parsing [of "''bold''" 700 "''/a/path/to/My Font Name-BoldItalic.woff2''" ?w] h1
  have r1: "from_file_path ''/a/path/to/My Font Name-BoldItalic.woff2'' ?w
      = (Inr (new_variant ''/a/path/to/My Font Name-BoldItalic.woff2'' ''bolditalic'' 700), ?w)"
    unfolding p1 by blast
  from weight_parsing [of "''bold''" 700 "''dist/Font-Wide.ttf''" ?w] h2
  obtain w' where r2: "from_file_path ''dist/Font-Wide.ttf'' ?w
        = (Inr (new_variant ''dist/Font-Wide.ttf'' ''wide'' 400), w')"
      and o: "length (stdout w') = 3"
    unfolding p2 by auto
  show ?thesis using r1 r2 o unfolding n1 n2 by simp
qed

text \<open>
  The claim as written fails: the token of \<open>Font-ExtraBold.ttf\<close> ends in the keyword
  \<open>bold\<close>, of weight 700, and the weight found is 800, that of the keyword the token
  starts with.
\<close>

theorem weight_suffix_counterexample:
  "(''bold'', 700) \<in> set FONT_WEIGHT_NAME_TO_VALUE
   \<and> suffix ''bold'' (style_params ''dist/Font-ExtraBold.ttf'')
   \<and> from_file_path ''dist/Font-ExtraBold.ttf'' \<lparr>indent_level = 0, stdout = [], calls = []\<rparr>
       = (Inr (new_variant ''dist/Font-ExtraBold.ttf'' ''extrabold'' 800),
          \<lparr>indent_level = 0, stdout = [], calls = []\<rparr>)
   \<and> weight (new_variant ''dist/Font-ExtraBold.ttf'' ''extrabold'' 800) \<noteq> 700"
proof -
  have p: "style_params ''dist/Font-ExtraBold.ttf'' = ''extrabold''" by code_simp
  have s: "suffix ''bold'' ''extrabold''" by (simp add: suffix_def)
  have f: "find (\<lambda>(k, v). prefix k ''extrabold'') FONT_WEIGHT_NAME_TO_VALUE = Some (''extrabold'', 800)"
    by (simp add: FONT_WEIGHT_NAME_TO_VALUE_def)
  show ?thesis
    using s f unfolding p
    by (simp add: from_file_path_def Let_def p new_variant_def) (simp add: FONT_WEIGHT_NAME_TO_VALUE_def)
qed

section \<open>Properties of the CSS assembler\<close>










lemma sequence_map_Inr: "sequence (map (\<lambda>x. Inr (g x)) xs) = Inr (map g xs)"
  by (induction xs) simp_all

lemma css_stringify_list_bare:
  "css_stringify_list (map (\<lambda>d. Text (CssStr d)) ds) = Inr ds"
  by (induction ds) simp_all

lemma with_relative_to_path_format [simp]: "format (with_relative_to_path ev f rel) = format f"
  by (cases rel) (simp_all add: with_relative_to_path_def)

lemma css_stringify_text:
  "css_stringify (Text t) = Inr (case t of Str s \<Rightarrow> json_dumps_str s | CssStr s \<Rightarrow> s)"
  by (cases t) simp_all

lemma to_font_face_subset:
  "to_font_face (subset_props ev (base_props self font_family) rel sset) =
     Inr (''@font-face{''
          @ ''font-family:'' @ (case font_family of Str s \<Rightarrow> json_dumps_str s | CssStr s \<Rightarrow> s)
          @ '';font-weight:'' @ str_int (weight self)
          @ '';font-style:'' @ (case style self of Str s \<Rightarrow> json_dumps_str s | CssStr s \<Rightarrow> s)
          @ (case stretch self of None \<Rightarrow> [] | Some st \<Rightarrow> '';font-stretch:'' @ st)
          @ '';unicode-range:'' @ join '','' (unicode_range sset)
          @ '';src:'' @ ''url(''
              @ json_dumps_str (file_path_relative ev (with_relative_to_path ev (subset_file sset) rel))
              @ '') format('' @ json_dumps_str (format (subset_file sset)) @ '')''
          @ ''}'')"
  by (cases "stretch self")
     (simp_all add: to_font_face_def subset_props_def base_props_def css_stringify_text
        css_stringify_list_bare as_dict_def)

text \<open>
  Claim C6. Without the block of the whole font, \<open>to_css_font_faces\<close> yields exactly
  one rule per artifact of the list of subsets, in the order of the list, changes
  nothing, and every rule has its properties in the order \<open>font-family\<close>,
  \<open>font-weight\<close>, \<open>font-style\<close>, \<open>font-stretch\<close> if the variant has one,
  \<open>unicode-range\<close>, \<open>src\<close>.
\<close>

theorem css_block_order:
  "to_css_font_faces ev self font_family rel False w =
     (Inr (map (\<lambda>sset.
             ''@font-face{''
             @ ''font-family:'' @ (case font_family of Str s \<Rightarrow> json_dumps_str s | CssStr s \<Rightarrow> s)
             @ '';font-weight:'' @ str_int (weight self)
             @ '';font-style:'' @ (case style self of Str s \<Rightarrow> json_dumps_str s | CssStr s \<Rightarrow> s)
             @ (case stretch self of None \<Rightarrow> [] | Some st \<Rightarrow> '';font-stretch:'' @ st)
             @ '';unicode-range:'' @ join '','' (unicode_range sset)
             @ '';src:'' @ ''url(''
                 @ json_dumps_str (file_path_relative ev (with_relative_to_path ev (subset_file sset) rel))
                 @ '') format('' @ json_dumps_str (format (subset_file sset)) @ '')''
             @ ''}'')
           (subsets self)),
      self, w)"
  unfolding to_css_font_faces_def Let_def to_font_face_subset sequence_map_Inr by simp

theorem css_block_order_witness:
  "to_css_font_faces
     \<lparr>isfile = (\<lambda>_. True), isdir = (\<lambda>_. False), relpath = (\<lambda>p r. basename p),
      makedirs = (\<lambda>_. None), read_cmap = (\<lambda>_. Inr []), subset_main = (\<lambda>_. None),
      repr_variant = (\<lambda>_. [])\<rparr>
     \<lparr>variant_file = from_path ''woff2/Font-Bold.woff2'' None, weight = 700,
      style = CssStr ''normal'', stretch = None,
      subsets =
        [\<lparr>subset_file = from_path ''woff2/Font-Bold.cyrillic.woff2'' (Some ''woff2''),
          unicode_range = [''U+400-45F'', ''U+2116'']\<rparr>,
         \<lparr>subset_file = from_path ''woff2/Font-Bold.greek.woff2'' (Some ''woff2''),
          unicode_range = [''U+370-3FF'']\<rparr>,
         \<lparr>subset_file = from_path ''woff2/Font-Bold.latin.woff2'' (Some ''woff2''),
          unicode_range = [''U+0-FF'']\<rparr>]\<rparr>
     (Str ''Iosevka Ally'') (Some ''woff2/Font-Bold.woff2'') False
     \<lparr>indent_level = 0, stdout = [], calls = []\<rparr>
   = (Inr [''@font-face{font-family:'' @ [dquote] @ ''Iosevka Ally'' @ [dquote]
             @ '';font-weight:700;font-style:normal;unicode-range:U+400-45F,U+2116;src:url(''
             @ [dquote] @ ''Font-Bold.cyrillic.woff2'' @ [dquote] @ '') format(''
             @ [dquote] @ ''woff2'' @ [dquote] @ '')}'',
           ''@font-face{font-family:'' @ [dquote] @ ''Iosevka Ally'' @ [dquote]
             @ '';font-weight:700;font-style:normal;unicode-range:U+370-3FF;src:url(''
             @ [dquote] @ ''Font-Bold.greek.woff2'' @ [dquote] @ '') format(''
             @ [dquote] @ ''woff2'' @ [dquote] @ '')}'',
           ''@font-face{font-family:'' @ [dquote] @ ''Iosevka Ally'' @ [dquote]
             @ '';font-weight:700;font-style:normal;unicode-range:U+0-FF;src:url(''
             @ [dquote] @ ''Font-Bold.latin.woff2'' @ [dquote] @ '') format(''
             @ [dquote] @ ''woff2'' @ [dquote] @ '')}''],
      \<lparr>variant_file = from_path ''woff2/Font-Bold.woff2'' None, weight = 700,
       style = CssStr ''normal'', stretch = None,
       subsets =
        [\<lparr>subset_file = from_path ''woff2/Font-Bold.cyrillic.woff2'' (Some ''woff2''),
          unicode_range = [''U+400-45F'', ''U+2116'']\<rparr>,
         \<lparr>subset_file = from_path ''woff2/Font-Bold.greek.woff2'' (Some ''woff2''),
          unicode_range = [''U+370-3FF'']\<rparr>,
         \<lparr>subset_file = from_path ''woff2/Font-Bold.latin.woff2'' (Some ''woff2''),
          unicode_range = [''U+0-FF'']\<rparr>]\<rparr>,
      \<lparr>indent_level = 0, stdout = [], calls = []\<rparr>)"
  unfolding css_block_order by code_simp

section \<open>Properties of the subsetter\<close>

lemma catalog_parses:
  "decode_intervals (split_on CHR '','' (join '','' (as_unicode_range sset))) \<noteq> None"
  by (cases sset) (simp_all add: decode_descriptor_def parse_hex_def hex_val_def)

lemma catalog_readable: "requested_chars sset = Inr (requested_set sset)"
  using catalog_parses [of sset]
  by (auto simp: requested_set_def requested_chars_def parse_unicodes_def Let_def)




lemma woff2_result_any_world:
  "fst (font_file_to_woff2 ev fpath output_path unicodes w)
     = fst (font_file_to_woff2 ev fpath output_path unicodes w')"
  by (simp add: font_file_to_woff2_def Let_def split: option.splits sum.splits)


lemma coverage_file_path:
  "available_unicode_characters ev f w = (r, f1, w1) \<Longrightarrow> file_path f1 = file_path f"
  by (auto simp: available_unicode_characters_def Let_def split: option.splits sum.splits)

lemma subset_small:
  assumes "available_unicode_characters ev (variant_file font_var) w = (Inr font_chars, f1, w1)"
    and "card (requested_set sset \<inter> set font_chars) < 8"
  shows "\<exists>w'. font_file_to_subset ev font_var sset output_path w
                = (Inr None, font_var\<lparr>variant_file := f1\<rparr>, w') \<and> calls w' = calls w1"
  using assms
  by (simp add: font_file_to_subset_def catalog_readable MIN_CHARS_FOR_SUBSET_def Let_def)

lemma subset_large:
  assumes "available_unicode_characters ev (variant_file font_var) w = (Inr font_chars, f1, w1)"
    and "8 \<le> card (requested_set sset \<inter> set font_chars)"
  shows "\<exists>w2. font_file_to_subset ev font_var sset output_path w
     = (case font_file_to_woff2 ev (file_path (variant_file font_var)) output_path
               (join '','' (ints_to_unicode_range (IntSet (requested_set sset \<inter> set font_chars)))) w2 of
          (Inl e, w3) \<Rightarrow> (Inl e, font_var\<lparr>variant_file := f1\<rparr>, w3)
        | (Inr out, w3) \<Rightarrow>
            (Inr (Some \<lparr>subset_file = from_path out (Some ''woff2''),
                        unicode_range = ints_to_unicode_range (IntSet (requested_set sset \<inter> set font_chars))\<rparr>),
             font_var\<lparr>variant_file := f1\<rparr>, w3))
     \<and> calls w2 = calls w1"
proof -
  have fp: "file_path f1 = file_path (variant_file font_var)"
    using coverage_file_path [OF assms(1)] .
  define w2 where "w2 = Console_log
      [''Subsetting'', file_name f1, ''to'', subset_name sset,
       ''('' @ str_int (int (card (requested_set sset \<inter> set font_chars))) @ '' chars)''] w1"
  have c: "calls w2 = calls w1" by (simp add: w2_def)
  have "\<not> card (requested_set sset \<inter> set font_chars) < 8" using assms(2) by simp
  then have "font_file_to_subset ev font_var sset output_path w
     = (case font_file_to_woff2 ev (file_path (variant_file font_var)) output_path
               (join '','' (ints_to_unicode_range (IntSet (requested_set sset \<inter> set font_chars)))) w2 of
          (Inl e, w3) \<Rightarrow> (Inl e, font_var\<lparr>variant_file := f1\<rparr>, w3)
        | (Inr out, w3) \<Rightarrow>
            (Inr (Some \<lparr>subset_file = from_path out (Some ''woff2''),
                        unicode_range = ints_to_unicode_range (IntSet (requested_set sset \<inter> set font_chars))\<rparr>),
             font_var\<lparr>variant_file := f1\<rparr>, w3))"
    using assms(1) fp
    by (simp add: font_file_to_subset_def catalog_readable MIN_CHARS_FOR_SUBSET_def Let_def w2_def)
  then show ?thesis using c by blast
qed

lemma woff2_returns:
  assumes "makedirs ev (dirname output_path) = None"
    and "with_suffix_woff2 output_path = Inr out"
    and "subset_main ev (subset_args fpath unicodes out) = None"
  shows "\<exists>w'. font_file_to_woff2 ev fpath output_path unicodes w = (Inr out, w')
           \<and> calls w' = calls w @ [MakeDirs (dirname output_path),
                                    SubsetMain (subset_args fpath unicodes out)]"
  using assms by (simp add: font_file_to_woff2_def Let_def)

lemma woff2_raises_main:
  assumes "makedirs ev (dirname output_path) = None"
    and "with_suffix_woff2 output_path = Inr out"
    and "subset_main ev (subset_args fpath unicodes out) = Some e"
  shows "fst (font_file_to_woff2 ev fpath output_path unicodes w) = Inl e"
  using assms by (simp add: font_file_to_woff2_def Let_def)

lemma woff2_raises_makedirs:
  assumes "makedirs ev (dirname output_path) = Some e"
  shows "fst (font_file_to_woff2 ev fpath output_path unicodes w) = Inl e"
  using assms by (simp add: font_file_to_woff2_def Let_def)

text \<open>
  Claim C2. Let the coverage of the font be readable. When fewer than 8 of the requested
  code points of the subset are in the font, 7 for instance, \<open>font_file_to_subset\<close>
  returns \<open>None\<close> and has asked for no conversion. When 8 or more are, exactly 8 for
  instance, it never returns \<open>None\<close>: when the directory can be made, the output path
  has a name and the font library converts the font, the artifact of the converted file
  and of the encoded intersection is returned, after exactly the making of the directory
  and the one conversion to that file with the encoded intersection as its code points;
  when the making of the directory or the conversion raises, that error is the result.
\<close>

theorem threshold_boundary:
  assumes "fst (available_unicode_characters ev (variant_file font_var) w) = Inr font_chars"
  shows "MIN_CHARS_FOR_SUBSET = 8
       \<and> (card (requested_set sset \<inter> set font_chars) < 8 \<longrightarrow>
            fst (font_file_to_subset ev font_var sset output_path w) = Inr None
            \<and> calls (snd (snd (font_file_to_subset ev font_var sset output_path w)))
                = calls (snd (snd (available_unicode_characters ev (variant_file font_var) w))))
       \<and> (8 \<le> card (requested_set sset \<inter> set font_chars) \<longrightarrow>
            fst (font_file_to_subset ev font_var sset output_path w) \<noteq> Inr None
            \<and> (\<forall>out.
                  makedirs ev (dirname output_path) = None
                  \<and> with_suffix_woff2 output_path = Inr out
                  \<and> subset_main ev
                        (subset_args (file_path (variant_file font_var))
                           (join '','' (ints_to_unicode_range
                                         (IntSet (requested_set sset \<inter> set font_chars)))) out) = None
                  \<longrightarrow>
                    fst (font_file_to_subset ev font_var sset output_path w)
                      = Inr (Some \<lparr>subset_file = from_path out (Some ''woff2''),
                                    unicode_range = ints_to_unicode_range
                                      (IntSet (requested_set sset \<inter> set font_chars))\<rparr>)
                    \<and> calls (snd (snd (font_file_to_subset ev font_var sset output_path w)))
                        = calls (snd (snd (available_unicode_characters ev (variant_file font_var) w)))
                          @ [MakeDirs (dirname output_path),
                             SubsetMain
                               (subset_args (file_path (variant_file font_var))
                                  (join '','' (ints_to_unicode_range
                                                (IntSet (requested_set sset \<inter> set font_chars)))) out)])
            \<and> (\<forall>out e.
                  makedirs ev (dirname output_path) = None
                  \<and> with_suffix_woff2 output_path = Inr out
                  \<and> subset_main ev
                        (subset_args (file_path (variant_file font_var))
                           (join '','' (ints_to_unicode_range
                                         (IntSet (requested_set sset \<inter> set font_chars)))) out) = Some e
                  \<longrightarrow> fst (font_file_to_subset ev font_var sset output_path w) = Inl e)
            \<and> (\<forall>e. makedirs ev (dirname output_path) = Some e
                  \<longrightarrow> fst (font_file_to_subset ev font_var sset output_path w) = Inl e))"
proof -
  obtain r f1 w1 where a: "available_unicode_characters ev (variant_file font_var) w = (r, f1, w1)"
    by (cases "available_unicode_characters ev (variant_file font_var) w") auto
  with assms have a': "available_unicode_characters ev (variant_file font_var) w = (Inr font_chars, f1, w1)"
    by simp
  let ?avail = "requested_set sset \<inter> set font_chars"
  let ?R = "ints_to_unicode_range (IntSet ?avail)"
  let ?u = "join '','' ?R"
  let ?fp = "file_path (variant_file font_var)"
  let ?res = "font_file_to_subset ev font_var sset output_path w"
  have small: "fst ?res = Inr None
            \<and> calls (snd (snd ?res))
                = calls (snd (snd (available_unicode_characters ev (variant_file font_var) w)))"
    if "card ?avail < 8"
    using subset_small [OF a' that, of output_path] a' by auto
  have large: "fst ?res \<noteq> Inr None
      \<and> (\<forall>out. makedirs ev (dirname output_path) = None
                  \<and> with_suffix_woff2 output_path = Inr out
                  \<and> subset_main ev (subset_args ?fp ?u out) = None
             \<longrightarrow> fst ?res = Inr (Some \<lparr>subset_file = from_path out (Some ''woff2''), unicode_range = ?R\<rparr>)
                 \<and> calls (snd (snd ?res))
                     = calls (snd (snd (available_unicode_characters ev (variant_file font_var) w)))
                       @ [MakeDirs (dirname output_path), SubsetMain (subset_args ?fp ?u out)])
      \<and> (\<forall>out e. makedirs ev (dirname output_path) = None
                  \<and> with_suffix_woff2 output_path = Inr out
                  \<and> subset_main ev (subset_args ?fp ?u out) = Some e
             \<longrightarrow> fst ?res = Inl e)
      \<and> (\<forall>e. makedirs ev (dirname output_path) = Some e \<longrightarrow> fst ?res = Inl e)"
    if ge: "8 \<le> card ?avail"
  proof -
    from subset_large [OF a' ge, of output_path] obtain w2 where
      eq: "?res
         = (case font_file_to_woff2 ev ?fp output_path ?u w2 of
              (Inl e, w3) \<Rightarrow> (Inl e, font_var\<lparr>variant_file := f1\<rparr>, w3)
            | (Inr out, w3) \<Rightarrow>
                (Inr (Some \<lparr>subset_file = from_path out (Some ''woff2''), unicode_range = ?R\<rparr>),
                 font_var\<lparr>variant_file := f1\<rparr>, w3))"
      and c2: "calls w2 = calls w1"
      by blast
    obtain res w3 where c: "font_file_to_woff2 ev ?fp output_path ?u w2 = (res, w3)"
      by (cases "font_file_to_woff2 ev ?fp output_path ?u w2") auto
    have never: "fst ?res \<noteq> Inr None"
      unfolding eq c by (cases res) simp_all
    have ok: "fst ?res = Inr (Some \<lparr>subset_file = from_path out (Some ''woff2''), unicode_range = ?R\<rparr>)
                 \<and> calls (snd (snd ?res))
                     = calls (snd (snd (available_unicode_characters ev (variant_file font_var) w)))
                       @ [MakeDirs (dirname output_path), SubsetMain (subset_args ?fp ?u out)]"
      if h: "makedirs ev (dirname output_path) = None" "with_suffix_woff2 output_path = Inr out"
            "subset_main ev (subset_args ?fp ?u out) = None" for out
    proof -
      from woff2_returns [OF h, of w2] obtain w' where
        r: "font_file_to_woff2 ev ?fp output_path ?u w2 = (Inr out, w')"
        and k: "calls w' = calls w2 @ [MakeDirs (dirname output_path), SubsetMain (subset_args ?fp ?u out)]"
        by blast
      show ?thesis unfolding eq r using k c2 a' by simp
    qed
    have bad_main: "fst ?res = Inl e"
      if h: "makedirs ev (dirname output_path) = None" "with_suffix_woff2 output_path = Inr out"
            "subset_main ev (subset_args ?fp ?u out) = Some e" for out e
      using woff2_raises_main [OF h, of w2] unfolding eq c using c by simp
    have bad_dirs: "fst ?res = Inl e" if h: "makedirs ev (dirname output_path) = Some e" for e
      using woff2_raises_makedirs [OF h, of ?fp ?u w2] unfolding eq c using c by simp
    show ?thesis using never ok bad_main bad_dirs by blast
  qed
  have "MIN_CHARS_FOR_SUBSET = 8" by (simp add: MIN_CHARS_FOR_SUBSET_def)
  then show ?thesis using small large by blast
qed

theorem threshold_boundary_witness:
  "fst (font_file_to_subset
          \<lparr>isfile = (\<lambda>_. True), isdir = (\<lambda>_. False), relpath = (\<lambda>p r. p), makedirs = (\<lambda>_. None),
           read_cmap = (\<lambda>_. Inr [[65, 4256, 4257, 4258, 4259], [4259, 4260, 4261, 4262, 4263]]),
           subset_main = (\<lambda>_. None), repr_variant = (\<lambda>_. [])\<rparr>
          (new_variant ''woff2/Font-Bold.woff2'' ''bold'' 700) Georgian
          ''woff2/Font-Bold.georgian.woff2'' \<lparr>indent_level = 0, stdout = [], calls = []\<rparr>)
     = Inr (Some \<lparr>subset_file = from_path ''woff2/Font-Bold.georgian.woff2'' (Some ''woff2''),
                   unicode_range = [''U+10A0-10A7'']\<rparr>)
   \<and> calls (snd (snd (font_file_to_subset
          \<lparr>isfile = (\<lambda>_. True), isdir = (\<lambda>_. False), relpath = (\<lambda>p r. p), makedirs = (\<lambda>_. None),
           read_cmap = (\<lambda>_. Inr [[65, 4256, 4257, 4258, 4259], [4259, 4260, 4261, 4262, 4263]]),
           subset_main = (\<lambda>_. None), repr_variant = (\<lambda>_. [])\<rparr>
          (new_variant ''woff2/Font-Bold.woff2'' ''bold'' 700) Georgian
          ''woff2/Font-Bold.georgian.woff2'' \<lparr>indent_level = 0, stdout = [], calls = []\<rparr>)))
     = [OpenFont ''woff2/Font-Bold.woff2'', MakeDirs ''woff2'',
        SubsetMain [''woff2/Font-Bold.woff2'', ''--no-hinting'', ''--desubroutinize'',
                      ''--no-ignore-missing-unicodes'', ''--no-ignore-missing-glyphs'',
                      ''--flavor=woff2'', ''--unicodes=U+10A0-10A7'',
                      ''--output-file=woff2/Font-Bold.georgian.woff2'']]
   \<and> fst (font_file_to_subset
          \<lparr>isfile = (\<lambda>_. True), isdir = (\<lambda>_. False), relpath = (\<lambda>p r. p), makedirs = (\<lambda>_. None),
           read_cmap = (\<lambda>_. Inr [[65, 4256, 4257, 4258, 4259], [4259, 4260, 4261, 4262]]),
           subset_main = (\<lambda>_. None), repr_variant = (\<lambda>_. [])\<rparr>
          (new_variant ''woff2/Font-Bold.woff2'' ''bold'' 700) Georgian
          ''woff2/Font-Bold.georgian.woff2'' \<lparr>indent_level = 0, stdout = [], calls = []\<rparr>)
     = Inr None
   \<and> fst (font_file_to_subset
          \<lparr>isfile = (\<lambda>_. True), isdir = (\<lambda>_. False), relpath = (\<lambda>p r. p), makedirs = (\<lambda>_. None),
           read_cmap = (\<lambda>_. Inr [[65, 4256, 4257, 4258, 4259], [4259, 4260, 4261, 4262, 4263]]),
           subset_main = (\<lambda>_. Some (ExternalError ''missing glyph'')), repr_variant = (\<lambda>_. [])\<rparr>
          (new_variant ''woff2/Font-Bold.woff2'' ''bold'' 700) Georgian
          ''woff2/Font-Bold.georgian.woff2'' \<lparr>indent_level = 0, stdout = [], calls = []\<rparr>)
     = Inl (ExternalError ''missing glyph'')"
proof -
  let ?ev8 = "\<lparr>isfile = (\<lambda>_. True), isdir = (\<lambda>_. False), relpath = (\<lambda>p r. p), makedirs = (\<lambda>_. None),
           read_cmap = (\<lambda>_. Inr [[65, 4256, 4257, 4258, 4259], [4259, 4260, 4261, 4262, 4263]]),
           subset_main = (\<lambda>_. None), repr_variant = (\<lambda>_. [])\<rparr>"
  let ?ev7 = "\<lparr>isfile = (\<lambda>_. True), isdir = (\<lambda>_. False), relpath = (\<lambda>p r. p), makedirs = (\<lambda>_. None),
           read_cmap = (\<lambda>_. Inr [[65, 4256, 4257, 4258, 4259], [4259, 4260, 4261, 4262]]),
           subset_main = (\<lambda>_. None), repr_variant = (\<lambda>_. [])\<rparr>"
  let ?evF = "\<lparr>isfile = (\<lambda>_. True), isdir = (\<lambda>_. False), relpath = (\<lambda>p r. p), makedirs = (\<lambda>_. None),
           read_cmap = (\<lambda>_. Inr [[65, 4256, 4257, 4258, 4259], [4259, 4260, 4261, 4262, 4263]]),
           subset_main = (\<lambda>_. Some (ExternalError ''missing glyph'')), repr_variant = (\<lambda>_. [])\<rparr>"
  let ?fv = "new_variant ''woff2/Font-Bold.woff2'' ''bold'' 700"
  let ?w = "\<lparr>indent_level = 0, stdout = [], calls = []\<rparr>"
  let ?out = "''woff2/Font-Bold.georgian.woff2''"
  let ?c8 = "[65, 4256, 4257, 4258, 4259, 4260, 4261, 4262, 4263 :: int]"
  let ?c7 = "[65, 4256, 4257, 4258, 4259, 4260, 4261, 4262 :: int]"
  let ?S8 = "{4256, 4257, 4258, 4259, 4260, 4261, 4262, 4263 :: int}"
  have s8: "sorted_list_of_set (set (concat [[65, 4256, 4257, 4258, 4259], [4259, 4260, 4261, 4262, 4263 :: int]])) = ?c8"
    by code_simp
  have s7: "sorted_list_of_set (set (concat [[65, 4256, 4257, 4258, 4259], [4259, 4260, 4261, 4262 :: int]])) = ?c7"
    by code_simp
  have a8: "fst (available_unicode_characters ?ev8 (variant_file ?fv) ?w) = Inr ?c8"
    unfolding available_unicode_characters_def Let_def s8 [symmetric]
    by (simp add: new_variant_def from_path_def)
  have a7: "fst (available_unicode_characters ?ev7 (variant_file ?fv) ?w) = Inr ?c7"
    unfolding available_unicode_characters_def Let_def s7 [symmetric]
    by (simp add: new_variant_def from_path_def)
  have aF: "fst (available_unicode_characters ?evF (variant_file ?fv) ?w) = Inr ?c8"
    unfolding available_unicode_characters_def Let_def s8 [symmetric]
    by (simp add: new_variant_def from_path_def)
  have k8: "calls (snd (snd (available_unicode_characters ?ev8 (variant_file ?fv) ?w)))
      = [OpenFont ''woff2/Font-Bold.woff2'']"
    unfolding available_unicode_characters_def Let_def s8
    by (simp add: new_variant_def from_path_def)
  have req: "requested_set Georgian = {4256..4351}"
    by (simp add: requested_set_def requested_chars_def parse_unicodes_def
          decode_descriptor_def parse_hex_def hex_val_def del: upto_rec_numeral)
  have i8: "requested_set Georgian \<inter> set ?c8 = ?S8"
    unfolding req by simp
  have i7: "requested_set Georgian \<inter> set ?c7 = {4256, 4257, 4258, 4259, 4260, 4261, 4262}"
    unfolding req by simp
  have e8': "ints_to_unicode_range (IntSet ?S8) = [''U+10A0-10A7'']"
    by code_simp
  have e8: "join '','' (ints_to_unicode_range (IntSet ?S8)) = ''U+10A0-10A7''"
    unfolding e8' by simp
  have fp: "file_path (variant_file ?fv) = ''woff2/Font-Bold.woff2''"
    by (simp add: new_variant_def from_path_def)
  have ws: "with_suffix_woff2 ?out = Inr ?out"
    by (simp add: with_suffix_woff2_def basename_def suffix_of_def)
  have dn: "dirname ?out = ''woff2''"
    by (simp add: dirname_def basename_def rstrip_def)
  have ge: "8 \<le> card (requested_set Georgian \<inter> set ?c8)" unfolding i8 by simp
  have lt: "card (requested_set Georgian \<inter> set ?c7) < 8" unfolding i7 by simp
  have ok8: "makedirs ?ev8 (dirname ?out) = None \<and> with_suffix_woff2 ?out = Inr ?out
      \<and> subset_main ?ev8 (subset_args (file_path (variant_file ?fv))
            (join '','' (ints_to_unicode_range (IntSet (requested_set Georgian \<inter> set ?c8)))) ?out) = None"
    using ws by simp
  have okF: "makedirs ?evF (dirname ?out) = None \<and> with_suffix_woff2 ?out = Inr ?out
      \<and> subset_main ?evF (subset_args (file_path (variant_file ?fv))
            (join '','' (ints_to_unicode_range (IntSet (requested_set Georgian \<inter> set ?c8)))) ?out)
          = Some (ExternalError ''missing glyph'')"
    using ws by simp
  note big8 = threshold_boundary [OF a8, of Georgian ?out, THEN conjunct2, THEN conjunct2, THEN mp, OF ge]
  note got8 = big8 [THEN conjunct2, THEN conjunct1, THEN spec, THEN mp, OF ok8]
  have r8: "fst (font_file_to_subset ?ev8 ?fv Georgian ?out ?w)
      = Inr (Some \<lparr>subset_file = from_path ?out (Some ''woff2''),
                    unicode_range = ints_to_unicode_range
                      (IntSet (requested_set Georgian \<inter> set ?c8))\<rparr>)"
    by (rule got8 [THEN conjunct1])
  have c8: "calls (snd (snd (font_file_to_subset ?ev8 ?fv Georgian ?out ?w)))
      = calls (snd (snd (available_unicode_characters ?ev8 (variant_file ?fv) ?w)))
        @ [MakeDirs (dirname ?out),
           SubsetMain (subset_args (file_path (variant_file ?fv))
             (join '','' (ints_to_unicode_range (IntSet (requested_set Georgian \<inter> set ?c8)))) ?out)]"
    by (rule got8 [THEN conjunct2])
  have r7: "fst (font_file_to_subset ?ev7 ?fv Georgian ?out ?w) = Inr None"
    by (rule threshold_boundary [OF a7, of Georgian ?out, THEN conjunct2, THEN conjunct1, THEN mp,
          OF lt, THEN conjunct1])
  note bigF = threshold_boundary [OF aF, of Georgian ?out, THEN conjunct2, THEN conjunct2, THEN mp, OF ge]
  have rF: "fst (font_file_to_subset ?evF ?fv Georgian ?out ?w) = Inl (ExternalError ''missing glyph'')"
    by (rule bigF [THEN conjunct2, THEN conjunct2, THEN conjunct1, THEN spec, THEN spec, THEN mp, OF okF])
  have r8': "fst (font_file_to_subset ?ev8 ?fv Georgian ?out ?w)
      = Inr (Some \<lparr>subset_file = from_path ?out (Some ''woff2''), unicode_range = [''U+10A0-10A7'']\<rparr>)"
    using r8 unfolding i8 e8' .
  have c8': "calls (snd (snd (font_file_to_subset ?ev8 ?fv Georgian ?out ?w)))
      = [OpenFont ''woff2/Font-Bold.woff2'', MakeDirs ''woff2'',
         SubsetMain [''woff2/Font-Bold.woff2'', ''--no-hinting'', ''--desubroutinize'',
                      ''--no-ignore-missing-unicodes'', ''--no-ignore-missing-glyphs'',
                      ''--flavor=woff2'', ''--unicodes=U+10A0-10A7'',
                      ''--output-file=woff2/Font-Bold.georgian.woff2'']]"
    using c8 unfolding i8 e8 k8 dn fp by (simp add: subset_args_def)
  show ?thesis using r8' c8' r7 rF by simp
qed












end
